theory Spec2Isabelle
  imports Main
begin

section \<open>Values, keys, errors\<close>

text \<open>
  A shallow embedding of the statement builder of goloquent (builder.go, statement.go,
  db.go and the mysql dialect). Go strings are byte strings (\<open>string\<close>), a Go
  \<open>interface{}\<close> value is a \<open>val\<close>, and a function returning \<open>(x, error)\<close> returns
  \<open>error + 'a\<close>. A run-time panic is the error \<open>Panic\<close>.
\<close>

text \<open>A \<open>*datastore.Key\<close> of the external datastore package: kind, numeric id, name, parent.\<close>

datatype Key = Key (kind: string) (key_id: int) (key_name: string) (parent: "Key option")

text \<open>
  Modelled from the spec: a key whose final segment has no assigned identifier is
  incomplete (\<open>Key.Incomplete\<close> of the datastore package: neither a name nor an id).
\<close>

definition Incomplete :: "Key \<Rightarrow> bool" where
  "Incomplete k = (key_name k = [] \<and> key_id k = 0)"

text \<open>
  The dynamic values that reach the builder. \<open>VNil\<close> is the nil interface, \<open>VKey\<close> a
  \<open>*datastore.Key\<close> (\<open>None\<close> the nil pointer), \<open>VKeys\<close> a \<open>[]*datastore.Key\<close>,
  \<open>VBytes\<close> a \<open>[]byte\<close> and \<open>VList\<close> a \<open>[]interface{}\<close>.
\<close>

datatype val =
    VNil
  | VBool bool
  | VInt int
  | VStr string
  | VBytes string
  | VKey "Key option"
  | VKeys "Key option list"
  | VList "val list"

datatype error =
    EmptyValue string
  | InvalidKeyType
  | NoPrimaryKey string
  | IncompleteKey string
  | TransactionUnsupported
  | BeginFailed string
  | ErrInvalidCursor
  | External string
  | Panic string

text \<open>
  \<open>EmptyValue op\<close> is \<open>value for "op" operator cannot be empty\<close>, \<open>InvalidKeyType\<close> is
  \<open>primary key has invalid data type\<close>, \<open>NoPrimaryKey t\<close> and \<open>IncompleteKey t\<close> are the
  two errors of \<open>concatKeys\<close> for the type named \<open>t\<close>, \<open>External\<close> is an error returned
  by code outside the builder, and \<open>Panic\<close> is a run-time panic of the Go runtime.
\<close>

section \<open>Strings\<close>

text \<open>\<open>strings.Join\<close>, \<open>strings.Repeat\<close> and \<open>strings.TrimRight\<close>.\<close>

fun Join :: "string list \<Rightarrow> string \<Rightarrow> string" where
  "Join [] sep = []"
| "Join [x] sep = x"
| "Join (x # y # ys) sep = x @ sep @ Join (y # ys) sep"

definition Repeat :: "string \<Rightarrow> nat \<Rightarrow> string" where
  "Repeat s n = concat (replicate n s)"

definition TrimRight :: "string \<Rightarrow> string \<Rightarrow> string" where
  "TrimRight s cutset = rev (dropWhile (\<lambda>c. c \<in> set cutset) (rev s))"

text \<open>
  \<open>Buffer.Truncate n\<close> keeps the first \<open>n\<close> bytes and panics when \<open>n\<close> is negative or
  beyond the length.
\<close>

definition Truncate :: "string \<Rightarrow> int \<Rightarrow> error + string" where
  "Truncate buf n =
     (if n < 0 \<or> int (length buf) < n then Inl (Panic ''truncation out of range'')
      else Inr (take (nat n) buf))"

text \<open>The verb \<open>%d\<close> of \<open>fmt.Sprintf\<close>.\<close>

fun decimal :: "nat \<Rightarrow> string" where
  "decimal n =
     (if n < 10 then [''0123456789'' ! n]
      else decimal (n div 10) @ [''0123456789'' ! (n mod 10)])"

declare decimal.simps [simp del]

definition Sprintd :: "int \<Rightarrow> string" where
  "Sprintd i = (if i < 0 then ''-'' @ decimal (nat (- i)) else decimal (nat i))"

section \<open>The query descriptor\<close>

text \<open>The constants of db.go.\<close>

definition pkColumn :: string where
  "pkColumn = ''$Key''"

definition softDeleteColumn :: string where
  "softDeleteColumn = ''$Deleted''"

text \<open>
  Modelled from the spec: the name of the logical primary-key field, which the error
  message of \<open>updateWithMap\<close> and the change log spell \<open>__key__\<close>; the constant is
  declared outside builder.go and db.go.
\<close>

definition keyFieldName :: string where
  "keyFieldName = ''__key__''"

text \<open>The placeholder of builder.go.\<close>

definition variable :: string where
  "variable = ''?''"

datatype operator =
    Equal | EqualTo | NotEqual | GreaterThan | GreaterEqual | LessThan | LessEqual
  | AnyLike | Like | NotLike | In | NotIn

record Filter =
  field :: string
  operator :: operator
  fvalue :: val

datatype direction = ascending | descending

record order =
  order_field :: string
  direction :: direction

record ancestor =
  isGroup :: bool
  data :: "val list"

datatype locked = NoLock | ReadLock | WriteLock

record scope =
  table :: string
  filters :: "Filter list"
  ancestors :: "ancestor list"
  projection :: "string list"
  distinctOn :: "string list"
  omits :: "string list"
  orders :: "order list"
  limit :: int
  offset :: int
  lockMode :: locked
  noScope :: bool

text \<open>A compiled statement: the text with its placeholders, and the ordered arguments.\<close>

record Stmt =
  Raw :: string
  Args :: "val list"

definition isZero :: "Stmt \<Rightarrow> bool" where
  "isZero s = (\<not> 0 < length (Raw s))"

section \<open>The dialect and the codec\<close>

text \<open>
  The \<open>Dialect\<close> interface as far as the builder calls it. The methods of \<open>Filter\<close> and
  the key codec are declared in other files of the repository; the builder takes them as
  the record \<open>Codec\<close>: \<open>Interface\<close> is \<open>Filter.Interface()\<close>, \<open>IsJSON\<close> is
  \<open>Filter.IsJSON()\<close>, \<open>stringPk\<close> and \<open>stringifyKey\<close> render a key.
\<close>

record Dialect =
  Quote :: "string \<Rightarrow> string"
  GetTable :: "string \<Rightarrow> string"
  FilterJSON :: "Filter \<Rightarrow> error + (string \<times> val list)"
  OnConflictUpdate :: "string \<Rightarrow> string list \<Rightarrow> string"
  UpdateWithLimit :: bool

record Codec =
  Interface :: "Filter \<Rightarrow> error + val"
  IsJSON :: "Filter \<Rightarrow> bool"
  stringPk :: "Key option \<Rightarrow> string"
  stringifyKey :: "Key option \<Rightarrow> string"

record builder =
  dialect :: Dialect
  codec :: Codec
  query :: scope

text \<open>
  Modelled from the spec: a filter is a field name, an operator and a value;
  \<open>Filter.Field()\<close> reads the field name.
\<close>

definition Field :: "Filter \<Rightarrow> string" where
  "Field f = field f"

section \<open>The WHERE fragment\<close>

text \<open>\<open>interfaceToKeyString\<close>: the value of a filter on the key, as key strings.\<close>

fun interfaceToKeyString :: "Codec \<Rightarrow> val \<Rightarrow> error + val"
  and keyStrings :: "Codec \<Rightarrow> val list \<Rightarrow> error + val list" where
  "interfaceToKeyString c VNil = Inr VNil"
| "interfaceToKeyString c (VKey k) = Inr (VStr (stringPk c k))"
| "interfaceToKeyString c (VStr s) = Inr (VStr s)"
| "interfaceToKeyString c (VBytes s) = Inr (VStr s)"
| "interfaceToKeyString c (VKeys ks) = Inr (VList (map (\<lambda>k. VStr (stringPk c k)) ks))"
| "interfaceToKeyString c (VList xs) =
     (case keyStrings c xs of Inl err \<Rightarrow> Inl err | Inr arr \<Rightarrow> Inr (VList arr))"
| "interfaceToKeyString c (VBool b) = Inl InvalidKeyType"
| "interfaceToKeyString c (VInt i) = Inl InvalidKeyType"
| "keyStrings c [] = Inr []"
| "keyStrings c (kk # rest) =
     (case interfaceToKeyString c kk of
        Inl err \<Rightarrow> Inl err
      | Inr k \<Rightarrow> (case keyStrings c rest of Inl err \<Rightarrow> Inl err | Inr arr \<Rightarrow> Inr (k # arr)))"

text \<open>
  \<open>x, isOk := v.([]interface{}); if !isOk { x = append(x, v) }\<close>: a value that is not a
  \<open>[]interface{}\<close> becomes the list of that one value.
\<close>

definition asList :: "val \<Rightarrow> val list" where
  "asList v = (case v of VList x \<Rightarrow> x | _ \<Rightarrow> [v])"

text \<open>The tail of the loop body: \<open>name op ?\<close> with the value as its argument.\<close>

definition compare :: "string \<Rightarrow> string \<Rightarrow> val \<Rightarrow> string list \<times> val list
    \<Rightarrow> error + (string list \<times> val list)" where
  "compare name op v acc =
     Inr (fst acc @ [name @ '' '' @ op @ '' '' @ variable], snd acc @ [v])"

text \<open>The parenthesised placeholders of \<open>In\<close> and \<open>NotIn\<close>.\<close>

definition placeholders :: "nat \<Rightarrow> string" where
  "placeholders n = ''('' @ TrimRight (Repeat (variable @ '','') n) '','' @ '')''"

text \<open>
  The switch on the operator in the loop of \<open>buildWhere\<close>, on the column name and the
  value \<open>v\<close> that the lines before it have computed.
\<close>

definition whereOperator :: "operator \<Rightarrow> string \<Rightarrow> val \<Rightarrow> string list \<times> val list
    \<Rightarrow> error + (string list \<times> val list)" where
  "whereOperator optr name v acc =
     (case optr of
        Equal \<Rightarrow>
          if v = VNil then Inr (fst acc @ [name @ '' IS NULL''], snd acc)
          else compare name ''='' v acc
      | EqualTo \<Rightarrow> compare name ''<=>'' v acc
      | NotEqual \<Rightarrow>
          if v = VNil then Inr (fst acc @ [name @ '' IS NOT NULL''], snd acc)
          else compare name ''<>'' v acc
      | GreaterThan \<Rightarrow> compare name ''>'' v acc
      | GreaterEqual \<Rightarrow> compare name ''>='' v acc
      | LessThan \<Rightarrow> compare name ''<'' v acc
      | LessEqual \<Rightarrow> compare name ''<='' v acc
      | AnyLike \<Rightarrow>
          (let x = asList v in
           if length x \<le> 0 then Inl (EmptyValue ''AnyLike'')
           else
             (let buf = ''('' @ Repeat (name @ '' LIKE '' @ variable @ '' OR '') (length x) in
              case Truncate buf (int (length buf) - 4) of
                Inl err \<Rightarrow> Inl err
              | Inr buf' \<Rightarrow> Inr (fst acc @ [buf' @ '')''], snd acc @ x)))
      | Like \<Rightarrow> compare name ''LIKE'' v acc
      | NotLike \<Rightarrow> compare name ''NOT LIKE'' v acc
      | In \<Rightarrow>
          (let x = asList v in
           if length x \<le> 0 then Inl (EmptyValue ''In'')
           else Inr (fst acc @ [name @ '' '' @ ''IN'' @ '' '' @ placeholders (length x)],
                     snd acc @ x))
      | NotIn \<Rightarrow>
          (let x = asList v in
           if length x \<le> 0 then Inl (EmptyValue ''NotIn'')
           else Inr (fst acc @ [name @ '' '' @ ''NOT IN'' @ '' '' @ placeholders (length x)],
                     snd acc @ x)))"

text \<open>
  Lines 130 to 137 of the loop body: a filter on the key folds to the key column, and its
  value is the raw value of the filter converted to key strings.
\<close>

definition foldKey :: "builder \<Rightarrow> Filter \<Rightarrow> string \<Rightarrow> val \<Rightarrow> error + (string \<times> val)" where
  "foldKey b f name v =
     (if Field f = keyFieldName \<or> Field f = pkColumn then
        (case interfaceToKeyString (codec b) (fvalue f) of
           Inl err \<Rightarrow> Inl err
         | Inr v' \<Rightarrow> Inr (Quote (dialect b) pkColumn, v'))
      else Inr (name, v))"

text \<open>One turn of the loop over \<open>query.filters\<close>, on the clauses and arguments so far.\<close>

definition whereFilter :: "builder \<Rightarrow> Filter \<Rightarrow> string list \<times> val list
    \<Rightarrow> error + (string list \<times> val list)" where
  "whereFilter b f acc =
     (let name = Quote (dialect b) (Field f) in
      case Interface (codec b) f of
        Inl err \<Rightarrow> Inl err
      | Inr v \<Rightarrow>
          if IsJSON (codec b) f then
            (case FilterJSON (dialect b) f of
               Inl err \<Rightarrow> Inl err
             | Inr (str, vv) \<Rightarrow> Inr (fst acc @ [str], snd acc @ vv))
          else
            (case foldKey b f name v of
               Inl err \<Rightarrow> Inl err
             | Inr (name', v') \<Rightarrow> whereOperator (operator f) name' v' acc))"

text \<open>
  The column name and the value that the switch on the operator receives for a filter that
  is not a JSON filter: what the source calls \<open>name\<close> and \<open>v\<close> at line 139.
\<close>

definition filterValue :: "builder \<Rightarrow> Filter \<Rightarrow> error + (string \<times> val)" where
  "filterValue b f =
     (case Interface (codec b) f of
        Inl err \<Rightarrow> Inl err
      | Inr v \<Rightarrow> foldKey b f (Quote (dialect b) (Field f)) v)"

fun whereFilters :: "builder \<Rightarrow> Filter list \<Rightarrow> string list \<times> val list
    \<Rightarrow> error + (string list \<times> val list)" where
  "whereFilters b [] acc = Inr acc"
| "whereFilters b (f # fs) acc =
     (case whereFilter b f acc of Inl err \<Rightarrow> Inl err | Inr acc' \<Rightarrow> whereFilters b fs acc')"

text \<open>
  One turn of the loop over \<open>query.ancestors\<close>. The type assertion \<open>x.(*datastore.Key)\<close>
  panics on a value that is no key, \<open>aa.data[0]\<close> panics on an empty list.
\<close>

definition ancestorArg :: "builder \<Rightarrow> val \<Rightarrow> error + val" where
  "ancestorArg b x =
     (case x of
        VKey k \<Rightarrow> Inr (VStr (''%'' @ stringifyKey (codec b) k @ ''/%''))
      | _ \<Rightarrow> Inl (Panic ''interface conversion''))"

fun ancestorGroup :: "builder \<Rightarrow> val list \<Rightarrow> string \<times> val list \<Rightarrow> error + (string \<times> val list)" where
  "ancestorGroup b [] st = Inr st"
| "ancestorGroup b (x # xs) st =
     (case ancestorArg b x of
        Inl err \<Rightarrow> Inl err
      | Inr a \<Rightarrow>
          ancestorGroup b xs
            (fst st @ Quote (dialect b) pkColumn @ '' LIKE '' @ variable @ '' OR '', snd st @ [a]))"

definition whereAncestor :: "builder \<Rightarrow> ancestor \<Rightarrow> string list \<times> val list
    \<Rightarrow> error + (string list \<times> val list)" where
  "whereAncestor b aa acc =
     (if isGroup aa then
        (case ancestorGroup b (data aa) (''('', snd acc) of
           Inl err \<Rightarrow> Inl err
         | Inr (buf, args) \<Rightarrow>
             (case Truncate buf (int (length buf) - 4) of
                Inl err \<Rightarrow> Inl err
              | Inr buf' \<Rightarrow> Inr (fst acc @ [buf' @ '')''], args)))
      else
        (case data aa of
           [] \<Rightarrow> Inl (Panic ''index out of range'')
         | x # _ \<Rightarrow>
             (case ancestorArg b x of
                Inl err \<Rightarrow> Inl err
              | Inr a \<Rightarrow>
                  Inr (fst acc @ [Quote (dialect b) pkColumn @ '' LIKE '' @ variable],
                       snd acc @ [a]))))"

fun whereAncestors :: "builder \<Rightarrow> ancestor list \<Rightarrow> string list \<times> val list
    \<Rightarrow> error + (string list \<times> val list)" where
  "whereAncestors b [] acc = Inr acc"
| "whereAncestors b (aa # as) acc =
     (case whereAncestor b aa acc of
        Inl err \<Rightarrow> Inl err
      | Inr acc' \<Rightarrow> whereAncestors b as acc')"

definition buildWhere :: "builder \<Rightarrow> scope \<Rightarrow> error + Stmt" where
  "buildWhere b q =
     (case whereFilters b (filters q) ([], []) of
        Inl err \<Rightarrow> Inl err
      | Inr acc \<Rightarrow>
          (case whereAncestors b (ancestors q) acc of
             Inl err \<Rightarrow> Inl err
           | Inr (wheres, args) \<Rightarrow>
               Inr \<lparr>Raw = (if 0 < length wheres then '' WHERE '' @ Join wheres '' AND '' else []),
                    Args = args\<rparr>))"

section \<open>SELECT statements\<close>

text \<open>
  The entity of a model, as far as the builder reads it: its table name, its column
  list, whether the model declares the soft-delete column, and the key field of each row
  of the slice (see \<open>concatKeys\<close>).
\<close>

datatype keyField = NotAKey | KeyPtr "Key option"

record entity =
  Name :: string
  Columns :: "string list"
  hasSoftDelete :: bool
  typeName :: string
  keyFields :: "keyField list"

text \<open>
  \<open>quoteIfNecessary\<close> quotes a name that matches
  \<^verbatim>\<open>^[\$a-zA-Z\d]+(\.[a-zA-Z\d]+)*$\<close>: segments separated by dots, none empty, of letters
  and digits, the first also of dollar signs.
\<close>

definition isAlnum :: "char \<Rightarrow> bool" where
  "isAlnum c = (c \<in> set ''abcdefghijklmnopqrstuvwxyzABCDEFGHIJKLMNOPQRSTUVWXYZ0123456789'')"

fun splitDot :: "string \<Rightarrow> string list" where
  "splitDot [] = [[]]"
| "splitDot (c # cs) =
     (if c = CHR ''.'' then [] # splitDot cs
      else (case splitDot cs of [] \<Rightarrow> [[c]] | s # ss \<Rightarrow> (c # s) # ss))"

definition matchName :: "string \<Rightarrow> bool" where
  "matchName v =
     (case splitDot v of
        [] \<Rightarrow> False
      | s # ss \<Rightarrow>
          s \<noteq> [] \<and> list_all (\<lambda>c. c = CHR ''$'' \<or> isAlnum c) s
          \<and> list_all (\<lambda>t. t \<noteq> [] \<and> list_all isAlnum t) ss)"

definition quoteIfNecessary :: "builder \<Rightarrow> string \<Rightarrow> string" where
  "quoteIfNecessary b v = (if matchName v then Quote (dialect b) v else v)"

definition buildSelect :: "builder \<Rightarrow> scope \<Rightarrow> Stmt" where
  "buildSelect b q =
     (let scope0 = ''*'';
          scope1 = (if 0 < length (projection q)
                    then Join (map (quoteIfNecessary b) (projection q)) '','' else scope0);
          scope2 = (if 0 < length (distinctOn q)
                    then ''DISTINCT '' @ Join (map (quoteIfNecessary b) (distinctOn q)) '',''
                    else scope1)
      in \<lparr>Raw = ''SELECT '' @ scope2, Args = []\<rparr>)"

definition orderTerm :: "builder \<Rightarrow> order \<Rightarrow> string" where
  "orderTerm b od =
     (let name = (if order_field od = keyFieldName then Quote (dialect b) pkColumn
                  else Quote (dialect b) (order_field od));
          suffix = (if direction od \<noteq> ascending then '' DESC'' else '' ASC'')
      in name @ suffix)"

definition buildOrder :: "builder \<Rightarrow> scope \<Rightarrow> Stmt" where
  "buildOrder b q =
     (let arr = map (orderTerm b) (orders q)
      in \<lparr>Raw = (if 0 < length arr then '' ORDER BY '' @ Join arr '','' else []), Args = []\<rparr>)"

definition buildLimitOffset :: "builder \<Rightarrow> scope \<Rightarrow> Stmt" where
  "buildLimitOffset b q =
     \<lparr>Raw = (if 0 < limit q then '' LIMIT '' @ Sprintd (limit q) else [])
           @ (if 0 < offset q then '' OFFSET '' @ Sprintd (offset q) else []),
      Args = []\<rparr>"

definition buildStmt :: "builder \<Rightarrow> scope \<Rightarrow> val list \<Rightarrow> error + Stmt" where
  "buildStmt b q args =
     (case buildWhere b q of
        Inl err \<Rightarrow> Inl err
      | Inr stmt \<Rightarrow>
          (let args' = (if \<not> isZero stmt then args @ Args stmt else args);
               buf = (if \<not> isZero stmt then Raw stmt else [])
           in Inr \<lparr>Raw = buf @ Raw (buildOrder b q) @ Raw (buildLimitOffset b q),
                   Args = args'\<rparr>))"

text \<open>The filter that \<open>getStmt\<close> appends, and the scope it compiles.\<close>

definition softDeleteFilter :: Filter where
  "softDeleteFilter = \<lparr>field = softDeleteColumn, operator = Equal, fvalue = VNil\<rparr>"

definition scopedQuery :: "builder \<Rightarrow> entity \<Rightarrow> scope" where
  "scopedQuery b e =
     (if \<not> noScope (query b) \<and> hasSoftDelete e
      then (query b)\<lparr>filters := filters (query b) @ [softDeleteFilter]\<rparr>
      else query b)"

definition lockClause :: "locked \<Rightarrow> string" where
  "lockClause m =
     (case m of ReadLock \<Rightarrow> '' LOCK IN SHARE MODE'' | WriteLock \<Rightarrow> '' FOR UPDATE'' | NoLock \<Rightarrow> [])"

definition getStmt :: "builder \<Rightarrow> entity \<Rightarrow> error + Stmt" where
  "getStmt b e =
     (let buf = Raw (buildSelect b (query b)) @ '' FROM '' @ GetTable (dialect b) (Name e)
      in case buildStmt b (scopedQuery b e) [] of
           Inl err \<Rightarrow> Inl err
         | Inr stmt \<Rightarrow>
             Inr \<lparr>Raw = buf @ Raw stmt @ lockClause (lockMode (scopedQuery b e)) @ '';'',
                  Args = Args stmt\<rparr>)"

section \<open>Deleting rows\<close>

text \<open>
  The loop of \<open>concatKeys\<close> over the rows of the slice, from index \<open>i\<close>. A key field
  that is no \<open>*datastore.Key\<close> is an error; \<open>kk.Incomplete()\<close> on a nil key is a nil
  dereference.
\<close>

fun concatKeysLoop :: "builder \<Rightarrow> string \<Rightarrow> keyField list \<Rightarrow> nat \<Rightarrow> string \<times> val list
    \<Rightarrow> error + (string \<times> val list)" where
  "concatKeysLoop b t [] i st = Inr st"
| "concatKeysLoop b t (f # fs) i st =
     (let buf = (if i \<noteq> 0 then fst st @ '','' else fst st) in
      case f of
        NotAKey \<Rightarrow> Inl (NoPrimaryKey t)
      | KeyPtr None \<Rightarrow> Inl (Panic ''nil pointer dereference'')
      | KeyPtr (Some kk) \<Rightarrow>
          if Incomplete kk then Inl (IncompleteKey t)
          else concatKeysLoop b t fs (Suc i)
                 (buf @ variable, snd st @ [VStr (stringPk (codec b) (Some kk))]))"

definition concatKeys :: "builder \<Rightarrow> entity \<Rightarrow> error + Stmt" where
  "concatKeys b e =
     (case concatKeysLoop b (typeName e) (keyFields e) 0 (''('', []) of
        Inl err \<Rightarrow> Inl err
      | Inr (buf, args) \<Rightarrow> Inr \<lparr>Raw = buf @ '')'', Args = args\<rparr>)"

text \<open>
  \<open>softDeleteStmt\<close>; \<open>now\<close> is the formatted time of the call,
  \<open>time.Now().UTC().Format("2006-01-02 15:04:05")\<close>.
\<close>

definition softDeleteStmt :: "builder \<Rightarrow> string \<Rightarrow> entity \<Rightarrow> error + Stmt" where
  "softDeleteStmt b now e =
     (let buf = ''UPDATE '' @ GetTable (dialect b) (Name e) @ '' SET ''
                @ Quote (dialect b) softDeleteColumn @ '' = '' @ variable @ '' WHERE ''
                @ Quote (dialect b) pkColumn @ '' IN '';
          args = [VStr now]
      in case concatKeys b e of
           Inl err \<Rightarrow> Inl err
         | Inr stmt \<Rightarrow> Inr \<lparr>Raw = buf @ Raw stmt @ '';'', Args = args @ Args stmt\<rparr>)"

definition deleteStmt :: "builder \<Rightarrow> string \<Rightarrow> entity \<Rightarrow> bool \<Rightarrow> error + Stmt" where
  "deleteStmt b now e isSoftDelete =
     (if isSoftDelete \<and> hasSoftDelete e then softDeleteStmt b now e
      else
        (let buf = ''DELETE FROM '' @ GetTable (dialect b) (Name e) @ '' WHERE ''
                   @ Quote (dialect b) pkColumn @ '' IN ''
         in case concatKeys b e of
              Inl err \<Rightarrow> Inl err
            | Inr stmt \<Rightarrow> Inr \<lparr>Raw = buf @ Raw stmt @ '';'', Args = [] @ Args stmt\<rparr>))"

section \<open>Bulk update from a struct\<close>

text \<open>
  A property of a saved struct, as the builder reads it: \<open>p.Name()\<close>, \<open>p.isZero()\<close>
  and \<open>p.Interface()\<close>. The model handed to \<open>updateWithStruct\<close> is read through
  \<open>checkSinglePtr\<close> and \<open>SaveStruct\<close>, whose results are the fields of \<open>Model\<close>; the
  properties are listed in the order in which the loop ranges over them.
\<close>

record Property =
  prop_Name :: string
  prop_isZero :: bool
  prop_Interface :: "error + val"

record Model =
  checkSinglePtr :: "error option"
  SaveStruct :: "error + Property list"

text \<open>
  Modelled from the spec: the projection and the omission list select columns by name;
  \<open>newDictionary\<close> collects the given names and \<open>has\<close> is membership.
\<close>

definition has :: "string list \<Rightarrow> string \<Rightarrow> bool" where
  "has dict k = (k \<in> set dict)"

fun updateFields :: "builder \<Rightarrow> string list \<Rightarrow> Property list \<Rightarrow> string \<times> val list
    \<Rightarrow> error + (string \<times> val list)" where
  "updateFields b cols [] st = Inr st"
| "updateFields b cols (p # ps) st =
     (let name = prop_Name p in
      if name = keyFieldName \<or> (\<not> has cols name \<and> prop_isZero p)
      then updateFields b cols ps st
      else
        (case prop_Interface p of
           Inl err \<Rightarrow> Inl err
         | Inr it \<Rightarrow>
             updateFields b cols ps
               (fst st @ Quote (dialect b) (prop_Name p) @ '' = '' @ variable @ '','',
                snd st @ [it])))"

definition updateWithStruct :: "builder \<Rightarrow> Model \<Rightarrow> error + Stmt" where
  "updateWithStruct b m =
     (case checkSinglePtr m of
        Some err \<Rightarrow> Inl err
      | None \<Rightarrow>
          (let cols = projection (query b) in
           case SaveStruct m of
             Inl err \<Rightarrow> Inl err
           | Inr props \<Rightarrow>
               (case updateFields b cols props ([], []) of
                  Inl err \<Rightarrow> Inl err
                | Inr (buf, args) \<Rightarrow>
                    (case Truncate buf (int (length buf) - 1) of
                       Inl err \<Rightarrow> Inl err
                     | Inr buf' \<Rightarrow> Inr \<lparr>Raw = buf', Args = args\<rparr>))))"

section \<open>Upsert\<close>

text \<open>
  The loop of \<open>upsert\<close> that drops the omitted columns:
  \<^verbatim>\<open>for i, c := range cols { if !omits.has(c) { continue }; cols = append(cols[:i], cols[i+1:]...) }\<close>.
  The range runs over the \<open>n\<close> indices of the slice it started with and reads the
  backing array \<open>arr\<close>, which the \<open>append\<close> overwrites in place; \<open>len\<close> is the current
  length of \<open>cols\<close>. Slicing \<open>cols[i+1:]\<close> beyond the length panics.
\<close>

function removeOmitted :: "string list \<Rightarrow> nat \<Rightarrow> nat \<Rightarrow> string list \<Rightarrow> nat
    \<Rightarrow> error + (string list \<times> nat)" where
  "removeOmitted dict n i arr len =
     (if n \<le> i then Inr (arr, len)
      else if \<not> has dict (arr ! i) then removeOmitted dict n (Suc i) arr len
      else if len < i + 1 then Inl (Panic ''slice bounds out of range'')
      else removeOmitted dict n (Suc i)
             (take i arr @ drop (i + 1) (take len arr) @ drop (len - 1) arr) (len - 1))"
  by pat_completeness auto
termination
  by (relation "measure (\<lambda>(dict, n, i, arr, len). n - i)") auto

declare removeOmitted.simps [simp del]

definition upsertColumns :: "string list \<Rightarrow> string list \<Rightarrow> error + string list" where
  "upsertColumns dict cols =
     (case removeOmitted dict (length cols) 0 cols (length cols) of
        Inl err \<Rightarrow> Inl err
      | Inr (arr, len) \<Rightarrow> Inr (take len arr))"

text \<open>
  \<open>upsert\<close>, up to the statement it hands to \<open>ExecStmt\<close>; \<open>None\<close> when the slice is
  empty and nothing is executed. \<open>put\<close> is the result of \<open>putStmt\<close>, which returns a nil
  statement without an error when \<open>SaveStruct\<close> fails.
\<close>

definition upsert :: "builder \<Rightarrow> entity \<Rightarrow> error + Stmt option \<Rightarrow> error + Stmt option" where
  "upsert b e put =
     (if length (keyFields e) \<le> 0 then Inr None
      else
        (case put of
           Inl err \<Rightarrow> Inl err
         | Inr stmt \<Rightarrow>
             (case upsertColumns (omits (query b)) (Columns e) of
                Inl err \<Rightarrow> Inl err
              | Inr cols \<Rightarrow>
                  (case stmt of
                     None \<Rightarrow> Inl (Panic ''nil pointer dereference'')
                   | Some s \<Rightarrow>
                       (case Truncate (Raw s) (int (length (Raw s)) - 1) of
                          Inl err \<Rightarrow> Inl err
                        | Inr buf \<Rightarrow>
                            Inr (Some \<lparr>Raw = buf
                                   @ (if 0 < length cols
                                      then '' '' @ OnConflictUpdate (dialect b) (Name e) cols
                                      else [])
                                   @ '';'',
                                 Args = Args s\<rparr>))))))"

section \<open>Transactions\<close>

text \<open>
  The connection capability \<open>sqlCommon\<close> is a \<open>*sql.DB\<close> or, inside a transaction, a
  \<open>*sql.Tx\<close>. A transaction of \<open>database/sql\<close> is active until its first \<open>Commit\<close> or
  \<open>Rollback\<close>; either call on a finished transaction returns \<open>ErrTxDone\<close> and changes
  nothing. \<open>commitResult\<close> is what the driver answers to the commit.
\<close>

datatype sqlCommon = SqlDB | SqlTx

datatype txState = Active | Committed | RolledBack | CommitFailed

definition ErrTxDone :: error where
  "ErrTxDone = External ''sql: transaction has already been committed or rolled back''"

definition Rollback :: "txState \<Rightarrow> error option \<times> txState" where
  "Rollback tx = (if tx = Active then (None, RolledBack) else (Some ErrTxDone, tx))"

definition Commit :: "error option \<Rightarrow> txState \<Rightarrow> error option \<times> txState" where
  "Commit commitResult tx =
     (if tx = Active
      then (commitResult, if commitResult = None then Committed else CommitFailed)
      else (Some ErrTxDone, tx))"

text \<open>
  A callback returns an error or nil, or panics. A Go function returns its results or
  leaves panicking.
\<close>

datatype cbResult = Return "error option" | Panics string

datatype 'a outcome = Returned 'a | Panicking string

text \<open>
  \<open>runInTransaction\<close> on the connection \<open>conn\<close>, where \<open>beginResult\<close> is the text of the
  error of \<open>conn.Begin()\<close>, if any. The result is the outcome of the call and the state of the
  transaction, if one was begun. The two deferred calls run after the body, last
  deferred first: \<open>tx.Rollback()\<close>, then the function that calls \<open>recover()\<close>. After a
  recovered panic the function returns the zero value of its unnamed result, nil.
\<close>

definition runInTransaction :: "sqlCommon \<Rightarrow> string option \<Rightarrow> error option
    \<Rightarrow> (sqlCommon \<Rightarrow> cbResult) \<Rightarrow> error option outcome \<times> txState option" where
  "runInTransaction conn beginResult commitResult cb =
     (case conn of
        SqlTx \<Rightarrow> (Returned (Some TransactionUnsupported), None)
      | SqlDB \<Rightarrow>
          (case beginResult of
             Some err \<Rightarrow> (Returned (Some (BeginFailed err)), None)
           | None \<Rightarrow>
               (let tx = Active;
                    body = (case cb SqlTx of
                              Panics v \<Rightarrow> (Panicking v, tx)
                            | Return (Some err) \<Rightarrow> (Returned (Some err), tx)
                            | Return None \<Rightarrow>
                                (Returned (fst (Commit commitResult tx)),
                                 snd (Commit commitResult tx)));
                    tx1 = snd (Rollback (snd body));
                    final = (case fst body of
                               Panicking v \<Rightarrow> (Returned None, snd (Rollback tx1))
                             | Returned r \<Rightarrow> (Returned r, tx1))
                in (fst final, Some (snd final)))))"

section \<open>Pagination\<close>

text \<open>
  \<open>paginate\<close>: the whole body of the function, with the decoding of the cursor and the
  comparison of its signature, is commented out; what is left is \<open>return nil\<close>.
\<close>

record Pagination =
  Cursor :: string
  Limit :: nat

definition paginate :: "builder \<Rightarrow> Pagination \<Rightarrow> Model \<Rightarrow> error option" where
  "paginate b p model = None"

section \<open>The mysql dialect and an instance of the builder\<close>

text \<open>\<open>mysql.Quote\<close> and \<open>mysql.OnConflictUpdate\<close>. The buffer of the latter is never empty.\<close>

definition mysqlQuote :: "string \<Rightarrow> string" where
  "mysqlQuote n = ''`'' @ n @ ''`''"

definition mysqlOnConflictUpdate :: "string \<Rightarrow> string list \<Rightarrow> string" where
  "mysqlOnConflictUpdate tbl cols =
     (let buf = ''ON DUPLICATE KEY UPDATE '' @
            concat (map (\<lambda>c. mysqlQuote c @ ''=VALUES('' @ mysqlQuote c @ ''),'') cols)
      in take (length buf - 1) buf)"

text \<open>
  The mysql dialect; \<open>GetTable\<close> and \<open>FilterJSON\<close> come from the embedded \<open>sequel\<close>
  and are parameters here.
\<close>

definition mysql :: "(string \<Rightarrow> string) \<Rightarrow> (Filter \<Rightarrow> error + (string \<times> val list)) \<Rightarrow> Dialect" where
  "mysql getTable filterJSON =
     \<lparr>Quote = mysqlQuote, GetTable = getTable, FilterJSON = filterJSON,
      OnConflictUpdate = mysqlOnConflictUpdate, UpdateWithLimit = True\<rparr>"

text \<open>
  A concrete builder: tables are quoted names, no filter is a JSON filter,
  \<open>Interface\<close> hands the value of the filter on, and a key is rendered as its name.
\<close>

definition exampleKeyString :: "Key option \<Rightarrow> string" where
  "exampleKeyString k = (case k of None \<Rightarrow> [] | Some k' \<Rightarrow> key_name k')"

definition exampleCodec :: Codec where
  "exampleCodec =
     \<lparr>Interface = (\<lambda>f. Inr (fvalue f)), IsJSON = (\<lambda>f. False),
      stringPk = exampleKeyString, stringifyKey = exampleKeyString\<rparr>"

definition emptyScope :: scope where
  "emptyScope =
     \<lparr>table = ''User'', filters = [], ancestors = [], projection = [], distinctOn = [],
      omits = [], orders = [], limit = 0, offset = 0, lockMode = NoLock, noScope = False\<rparr>"

definition exampleBuilder :: builder where
  "exampleBuilder =
     \<lparr>dialect = mysql mysqlQuote (\<lambda>f. Inl (External ''json'')), codec = exampleCodec,
      query = emptyScope\<rparr>"

section \<open>Notions used in the statements\<close>

text \<open>
  The column a filter is rendered on: the key column for a filter on the key, the field
  of the filter otherwise.
\<close>

definition columnName :: "builder \<Rightarrow> Filter \<Rightarrow> string" where
  "columnName b f =
     Quote (dialect b)
       (if Field f = keyFieldName \<or> Field f = pkColumn then pkColumn else Field f)"

definition isList :: "val \<Rightarrow> bool" where
  "isList v = (case v of VList x \<Rightarrow> True | _ \<Rightarrow> False)"

text \<open>The WHERE fragment of a list of clauses.\<close>

definition whereText :: "string list \<Rightarrow> string" where
  "whereText ws = (if ws = [] then [] else '' WHERE '' @ Join ws '' AND '')"

text \<open>
  The text of a SELECT statement with its fragments in the order SELECT, FROM, WHERE,
  lock clause, ORDER BY, LIMIT/OFFSET, terminator: the lock clause before ORDER BY.
\<close>

definition lockBeforeOrder :: "builder \<Rightarrow> entity \<Rightarrow> error + string" where
  "lockBeforeOrder b e =
     (case buildWhere b (scopedQuery b e) of
        Inl err \<Rightarrow> Inl err
      | Inr w \<Rightarrow>
          Inr (Raw (buildSelect b (query b)) @ '' FROM '' @ GetTable (dialect b) (Name e)
               @ Raw w @ lockClause (lockMode (query b)) @ Raw (buildOrder b (query b))
               @ Raw (buildLimitOffset b (query b)) @ '';''))"

definition exampleEntity :: entity where
  "exampleEntity =
     \<lparr>Name = ''User'', Columns = [''$Key'', ''Name'', ''Age''], hasSoftDelete = False,
      typeName = ''User'', keyFields = []\<rparr>"

text \<open>A locked, ordered and limited scope without filters.\<close>

definition lockedScope :: scope where
  "lockedScope =
     emptyScope\<lparr>orders := [\<lparr>order_field = ''Name'', direction = ascending\<rparr>],
                limit := 10, lockMode := WriteLock\<rparr>"

definition lockedBuilder :: builder where
  "lockedBuilder = exampleBuilder\<lparr>query := lockedScope\<rparr>"

text \<open>The rows of a slice whose key fields hold the keys \<open>ks\<close>, none of them nil.\<close>

definition rowsOfKeys :: "Key list \<Rightarrow> keyField list" where
  "rowsOfKeys ks = map (\<lambda>k. KeyPtr (Some k)) ks"

definition exampleKey :: "string \<Rightarrow> Key" where
  "exampleKey n = Key ''User'' 0 n None"

text \<open>
  The rule of the specification for a struct-sourced update: a property takes part when
  it is not the key field and is either named in the projection or not zero.
\<close>

definition participates :: "string list \<Rightarrow> Property \<Rightarrow> bool" where
  "participates cols p =
     (prop_Name p \<noteq> keyFieldName \<and> (has cols (prop_Name p) \<or> \<not> prop_isZero p))"

text \<open>The values of a list of properties, or the first error of \<open>p.Interface()\<close>.\<close>

fun valuesOf :: "Property list \<Rightarrow> error + val list" where
  "valuesOf [] = Inr []"
| "valuesOf (p # ps) =
     (case prop_Interface p of
        Inl err \<Rightarrow> Inl err
      | Inr it \<Rightarrow> (case valuesOf ps of Inl err \<Rightarrow> Inl err | Inr its \<Rightarrow> Inr (it # its)))"

definition exampleModel :: Model where
  "exampleModel =
     \<lparr>checkSinglePtr = None,
      SaveStruct = Inr
        [\<lparr>prop_Name = ''__key__'', prop_isZero = False, prop_Interface = Inr (VStr ''K1'')\<rparr>,
         \<lparr>prop_Name = ''Name'', prop_isZero = True, prop_Interface = Inr (VStr [])\<rparr>,
         \<lparr>prop_Name = ''Age'', prop_isZero = True, prop_Interface = Inr (VInt 0)\<rparr>,
         \<lparr>prop_Name = ''Email'', prop_isZero = False, prop_Interface = Inr (VStr ''a@b'')\<rparr>]\<rparr>"

text \<open>An entity of one row with the columns A, B and C, and the INSERT statement for it.\<close>

definition abcEntity :: "string list \<Rightarrow> entity" where
  "abcEntity cols =
     \<lparr>Name = ''User'', Columns = cols, hasSoftDelete = False, typeName = ''User'',
      keyFields = rowsOfKeys [exampleKey ''K1'']\<rparr>"

definition abcInsert :: Stmt where
  "abcInsert =
     \<lparr>Raw = ''INSERT INTO `User` (`$Key`,`A`,`B`,`C`) VALUES (?,?,?,?);'',
      Args = [VStr ''K1'', VInt 1, VInt 2, VInt 3]\<rparr>"

definition omitBuilder :: builder where
  "omitBuilder = exampleBuilder\<lparr>query := emptyScope\<lparr>omits := [''A'', ''B'']\<rparr>\<rparr>"

section \<open>Properties of the WHERE fragment\<close>

lemma Join_replicate_snoc:
  "\<exists>r. Join (replicate (Suc n) (s @ [c])) sep = r @ [c]"
proof (induction n)
  case 0
  show ?case by simp
next
  case (Suc n)
  then obtain r where "Join (replicate (Suc n) (s @ [c])) sep = r @ [c]" by blast
  then have "Join (replicate (Suc (Suc n)) (s @ [c])) sep = (s @ [c] @ sep @ r) @ [c]"
    by simp
  then show ?case by blast
qed

lemma Repeat_Join:
  "Repeat (s @ sep) (Suc n) = Join (replicate (Suc n) s) sep @ sep"
  by (induction n) (simp_all add: Repeat_def)

lemma placeholders_Join:
  assumes "0 < n"
  shows "placeholders n = ''('' @ Join (replicate n variable) '','' @ '')''"
proof -
  obtain m where n: "n = Suc m" using assms by (cases n) auto
  obtain r where r: "Join (replicate (Suc m) ([] @ [CHR ''?''])) '','' = r @ [CHR ''?'']"
    using Join_replicate_snoc by blast
  have "Repeat (variable @ '','') n = Join (replicate n variable) '','' @ '',''"
    unfolding n by (rule Repeat_Join)
  moreover have "TrimRight (Join (replicate n variable) '','' @ '','') '',''
      = Join (replicate n variable) '',''"
    using r unfolding n by (simp add: TrimRight_def variable_def)
  ultimately show ?thesis by (simp add: placeholders_def)
qed

lemma Truncate_suffix:
  "Truncate (xs @ ys) (int (length (xs @ ys)) - int (length ys)) = Inr xs"
  by (simp add: Truncate_def)

lemma anyLike_buffer:
  assumes "0 < n" and "buf = ''('' @ Repeat (s @ '' OR '') n"
  shows "Truncate buf (int (length buf) - 4) = Inr (''('' @ Join (replicate n s) '' OR '')"
proof -
  obtain m where n: "n = Suc m" using assms(1) by (cases n) auto
  have "buf = (''('' @ Join (replicate n s) '' OR '') @ '' OR ''"
    unfolding assms(2) n by (simp add: Repeat_Join)
  then show ?thesis
    using Truncate_suffix [of "''('' @ Join (replicate n s) '' OR ''" "'' OR ''"] by simp
qed

lemma whereFilter_filterValue:
  assumes "\<not> IsJSON (codec b) f"
  shows "whereFilter b f acc =
    (case filterValue b f of
       Inl err \<Rightarrow> Inl err
     | Inr (name, v) \<Rightarrow> whereOperator (operator f) name v acc)"
  using assms by (simp add: whereFilter_def filterValue_def split: sum.splits)

lemma whereFilters_append:
  "whereFilters b (fs @ gs) acc =
    (case whereFilters b fs acc of Inl err \<Rightarrow> Inl err | Inr acc' \<Rightarrow> whereFilters b gs acc')"
  by (induction fs arbitrary: acc) (simp_all split: sum.splits)

lemma whereFilters_fails:
  assumes "f \<in> set fs" and "\<And>acc. \<exists>e. whereFilter b f acc = Inl e"
  shows "\<exists>e. whereFilters b fs acc = Inl e"
  using assms(1)
proof (induction fs arbitrary: acc)
  case Nil
  then show ?case by simp
next
  case (Cons g gs)
  show ?case
  proof (cases "whereFilter b g acc")
    case (Inl e)
    then show ?thesis by simp
  next
    case (Inr acc')
    have "g \<noteq> f" using Inr assms(2) [of acc] by auto
    then have "f \<in> set gs" using Cons.prems by auto
    then show ?thesis using Cons.IH [of acc'] Inr by simp
  qed
qed

lemma whereOperator_In:
  assumes "asList v = x" and "x \<noteq> []"
  shows "whereOperator In name v acc =
    Inr (fst acc @ [name @ '' IN ('' @ Join (replicate (length x) ''?'') '','' @ '')''],
         snd acc @ x)"
  using assms placeholders_Join [of "length x"]
  by (simp add: whereOperator_def variable_def)

lemma whereOperator_NotIn:
  assumes "asList v = x" and "x \<noteq> []"
  shows "whereOperator NotIn name v acc =
    Inr (fst acc @ [name @ '' NOT IN ('' @ Join (replicate (length x) ''?'') '','' @ '')''],
         snd acc @ x)"
  using assms placeholders_Join [of "length x"]
  by (simp add: whereOperator_def variable_def)

lemma whereOperator_AnyLike:
  assumes "asList v = x" and "x \<noteq> []"
  shows "whereOperator AnyLike name v acc =
    Inr (fst acc @ [''('' @ Join (replicate (length x) (name @ '' LIKE ?'')) '' OR '' @ '')''],
         snd acc @ x)"
proof -
  have "Truncate (''('' @ Repeat ((name @ '' LIKE ?'') @ '' OR '') (length x))
          (int (length (''('' @ Repeat ((name @ '' LIKE ?'') @ '' OR '') (length x))) - 4)
        = Inr (''('' @ Join (replicate (length x) (name @ '' LIKE ?'')) '' OR '')"
    using assms(2) by (intro anyLike_buffer) simp_all
  then show ?thesis
    using assms by (simp add: whereOperator_def variable_def)
qed

lemma whereOperator_empty:
  assumes "asList v = []"
  shows "whereOperator In name v acc = Inl (EmptyValue ''In'')"
    and "whereOperator NotIn name v acc = Inl (EmptyValue ''NotIn'')"
    and "whereOperator AnyLike name v acc = Inl (EmptyValue ''AnyLike'')"
  using assms by (simp_all add: whereOperator_def)

lemma buildWhere_single:
  assumes "filters q = [f]" and "ancestors q = []"
    and "whereFilter b f ([], []) = Inr ([w], as)"
  shows "buildWhere b q = Inr \<lparr>Raw = '' WHERE '' @ w, Args = as\<rparr>"
  using assms by (simp add: buildWhere_def)

lemma filterValue_nil:
  assumes "fvalue f = VNil" and "Interface (codec b) f = Inr VNil"
  shows "filterValue b f = Inr (columnName b f, VNil)"
  using assms by (simp add: filterValue_def foldKey_def columnName_def)

text \<open>
  Claim C9. A filter with the operator Equal or NotEqual whose value is nil compiles to
  \<open>column IS NULL\<close> or \<open>column IS NOT NULL\<close>: the loop body appends exactly that
  clause and no argument, and a scope of that one filter compiles to the WHERE fragment
  of that clause with an empty argument list. The filter is not a JSON filter, and
  \<open>Interface\<close> hands nil on as nil.
\<close>

theorem nil_equality_is_null:
  assumes "\<not> IsJSON (codec b) f" and "fvalue f = VNil"
    and "Interface (codec b) f = Inr VNil"
  shows "(operator f = Equal \<longrightarrow>
           whereFilter b f acc = Inr (fst acc @ [columnName b f @ '' IS NULL''], snd acc)
           \<and> (filters q = [f] \<and> ancestors q = [] \<longrightarrow>
                buildWhere b q
                  = Inr \<lparr>Raw = '' WHERE '' @ columnName b f @ '' IS NULL'', Args = []\<rparr>))
       \<and> (operator f = NotEqual \<longrightarrow>
           whereFilter b f acc = Inr (fst acc @ [columnName b f @ '' IS NOT NULL''], snd acc)
           \<and> (filters q = [f] \<and> ancestors q = [] \<longrightarrow>
                buildWhere b q
                  = Inr \<lparr>Raw = '' WHERE '' @ columnName b f @ '' IS NOT NULL'', Args = []\<rparr>))"
proof -
  have fv: "filterValue b f = Inr (columnName b f, VNil)"
    using assms(2,3) by (rule filterValue_nil)
  have step: "whereFilter b f a = whereOperator (operator f) (columnName b f) VNil a" for a
    using whereFilter_filterValue [OF assms(1), of a] fv by simp
  show ?thesis
    by (auto simp: step whereOperator_def buildWhere_def)
qed

theorem nil_equality_is_null_witness:
  "whereFilter exampleBuilder \<lparr>field = ''Email'', operator = Equal, fvalue = VNil\<rparr>
      ([''`Age` > ?''], [VInt 18])
     = Inr ([''`Age` > ?'', ''`Email` IS NULL''], [VInt 18])
   \<and> buildWhere exampleBuilder
        (emptyScope\<lparr>filters := [\<lparr>field = ''__key__'', operator = NotEqual, fvalue = VNil\<rparr>]\<rparr>)
     = Inr \<lparr>Raw = '' WHERE `$Key` IS NOT NULL'', Args = []\<rparr>"
proof -
  let ?f = "\<lparr>field = ''Email'', operator = Equal, fvalue = VNil\<rparr>"
  let ?g = "\<lparr>field = ''__key__'', operator = NotEqual, fvalue = VNil\<rparr>"
  have j: "\<not> IsJSON (codec exampleBuilder) h" for h
    by (simp add: exampleBuilder_def exampleCodec_def)
  have i: "fvalue h = VNil \<Longrightarrow> Interface (codec exampleBuilder) h = Inr VNil" for h
    by (simp add: exampleBuilder_def exampleCodec_def)
  have a: "whereFilter exampleBuilder ?f ([''`Age` > ?''], [VInt 18])
     = Inr ([''`Age` > ?'', ''`Email` IS NULL''], [VInt 18])"
    using nil_equality_is_null [OF j [of ?f] _ i [of ?f], of "([''`Age` > ?''], [VInt 18])"]
    by (simp add: columnName_def Field_def keyFieldName_def pkColumn_def exampleBuilder_def
        mysql_def mysqlQuote_def)
  have b: "buildWhere exampleBuilder (emptyScope\<lparr>filters := [?g]\<rparr>)
     = Inr \<lparr>Raw = '' WHERE `$Key` IS NOT NULL'', Args = []\<rparr>"
    using nil_equality_is_null [OF j [of ?g] _ i [of ?g], of _ "emptyScope\<lparr>filters := [?g]\<rparr>"]
    by (simp add: columnName_def Field_def keyFieldName_def pkColumn_def exampleBuilder_def
        mysql_def mysqlQuote_def emptyScope_def)
  show ?thesis using a b by simp
qed

text \<open>
  Claim C8. For a filter that is not a JSON filter and whose value is the list \<open>xs\<close>:
  when \<open>xs\<close> is empty, the operators In, NotIn and AnyLike make the loop body return the
  usage error of that operator, and every scope that holds the filter fails to compile
  its WHERE fragment; when \<open>xs\<close> has n elements, In and NotIn append the single clause
  \<open>name IN (?,...,?)\<close> (\<open>NOT IN\<close>) of n placeholders and append \<open>xs\<close>, in order, to
  the arguments.
\<close>

theorem in_notin_anylike_lists:
  assumes "\<not> IsJSON (codec b) f" and "filterValue b f = Inr (name, VList xs)"
  shows "(xs = [] \<longrightarrow>
           (operator f = In \<longrightarrow> whereFilter b f acc = Inl (EmptyValue ''In''))
         \<and> (operator f = NotIn \<longrightarrow> whereFilter b f acc = Inl (EmptyValue ''NotIn''))
         \<and> (operator f = AnyLike \<longrightarrow> whereFilter b f acc = Inl (EmptyValue ''AnyLike''))
         \<and> (operator f \<in> {In, NotIn, AnyLike} \<and> f \<in> set (filters q) \<longrightarrow>
              (\<exists>e. buildWhere b q = Inl e)))
       \<and> (xs \<noteq> [] \<longrightarrow>
           (operator f = In \<longrightarrow>
              whereFilter b f acc
                = Inr (fst acc @ [name @ '' IN ('' @ Join (replicate (length xs) ''?'') '','' @ '')''],
                       snd acc @ xs))
         \<and> (operator f = NotIn \<longrightarrow>
              whereFilter b f acc
                = Inr (fst acc @ [name @ '' NOT IN ('' @ Join (replicate (length xs) ''?'') '','' @ '')''],
                       snd acc @ xs)))"
proof -
  have step: "whereFilter b f a = whereOperator (operator f) name (VList xs) a" for a
    using whereFilter_filterValue [OF assms(1), of a] assms(2) by simp
  have l: "asList (VList xs) = xs" by (simp add: asList_def)
  have empty: "\<exists>e. buildWhere b q = Inl e"
    if "xs = []" and "operator f \<in> {In, NotIn, AnyLike}" and "f \<in> set (filters q)"
  proof -
    have e: "asList (VList xs) = []" using that(1) l by simp
    have "\<exists>e. whereFilter b f a = Inl e" for a
      using that(2) whereOperator_empty [OF e, of name a] by (auto simp: step)
    then have "\<exists>e. whereFilters b (filters q) ([], []) = Inl e"
      using that(3) whereFilters_fails by blast
    then show ?thesis by (auto simp: buildWhere_def)
  qed
  have nonempty: "xs \<noteq> [] \<Longrightarrow> operator f = In \<Longrightarrow> whereFilter b f acc
      = Inr (fst acc @ [name @ '' IN ('' @ Join (replicate (length xs) ''?'') '','' @ '')''],
             snd acc @ xs)"
    "xs \<noteq> [] \<Longrightarrow> operator f = NotIn \<Longrightarrow> whereFilter b f acc
      = Inr (fst acc @ [name @ '' NOT IN ('' @ Join (replicate (length xs) ''?'') '','' @ '')''],
             snd acc @ xs)"
    using whereOperator_In [OF l, of name acc] whereOperator_NotIn [OF l, of name acc]
    by (simp_all add: step)
  have errs: "xs = [] \<Longrightarrow> operator f = In \<Longrightarrow> whereFilter b f acc = Inl (EmptyValue ''In'')"
    "xs = [] \<Longrightarrow> operator f = NotIn \<Longrightarrow> whereFilter b f acc = Inl (EmptyValue ''NotIn'')"
    "xs = [] \<Longrightarrow> operator f = AnyLike \<Longrightarrow> whereFilter b f acc = Inl (EmptyValue ''AnyLike'')"
    using whereOperator_empty [of "VList xs" name acc] l by (simp_all add: step)
  show ?thesis
    using empty nonempty errs by blast
qed

theorem in_notin_anylike_lists_witness:
  "whereFilter exampleBuilder
      \<lparr>field = ''Age'', operator = In, fvalue = VList [VInt 1, VInt 2, VInt 3]\<rparr> ([], [])
     = Inr ([''`Age` IN (?,?,?)''], [VInt 1, VInt 2, VInt 3])
   \<and> whereFilter exampleBuilder \<lparr>field = ''Age'', operator = AnyLike, fvalue = VList []\<rparr> ([], [])
     = Inl (EmptyValue ''AnyLike'')
   \<and> (\<exists>e. buildWhere exampleBuilder
        (emptyScope\<lparr>filters := [\<lparr>field = ''Name'', operator = Equal, fvalue = VStr ''a''\<rparr>,
                                 \<lparr>field = ''Age'', operator = AnyLike, fvalue = VList []\<rparr>]\<rparr>)
       = Inl e)"
proof -
  let ?f = "\<lparr>field = ''Age'', operator = In, fvalue = VList [VInt 1, VInt 2, VInt 3]\<rparr>"
  let ?g = "\<lparr>field = ''Age'', operator = AnyLike, fvalue = VList []\<rparr>"
  let ?q = "emptyScope\<lparr>filters := [\<lparr>field = ''Name'', operator = Equal, fvalue = VStr ''a''\<rparr>, ?g]\<rparr>"
  have j: "\<not> IsJSON (codec exampleBuilder) h" for h
    by (simp add: exampleBuilder_def exampleCodec_def)
  have vf: "filterValue exampleBuilder ?f = Inr (''`Age`'', VList [VInt 1, VInt 2, VInt 3])"
    by (simp add: filterValue_def foldKey_def Field_def keyFieldName_def pkColumn_def
        exampleBuilder_def exampleCodec_def mysql_def mysqlQuote_def)
  have vg: "filterValue exampleBuilder ?g = Inr (''`Age`'', VList [])"
    by (simp add: filterValue_def foldKey_def Field_def keyFieldName_def pkColumn_def
        exampleBuilder_def exampleCodec_def mysql_def mysqlQuote_def)
  have a: "whereFilter exampleBuilder ?f ([], [])
      = Inr ([''`Age` IN (?,?,?)''], [VInt 1, VInt 2, VInt 3])"
    using in_notin_anylike_lists [OF j [of ?f] vf, of "([], [])"]
    by (simp add: numeral_3_eq_3)
  have b: "whereFilter exampleBuilder ?g ([], []) = Inl (EmptyValue ''AnyLike'')"
    using in_notin_anylike_lists [OF j [of ?g] vg, of "([], [])"] by simp
  have c: "\<exists>e. buildWhere exampleBuilder ?q = Inl e"
    using in_notin_anylike_lists [OF j [of ?g] vg, of _ ?q] by (simp add: emptyScope_def)
  show ?thesis using a b c by blast
qed

text \<open>
  Claim C10. For a filter that is not a JSON filter and whose value \<open>v\<close> is not a
  \<open>[]interface{}\<close>, the operators In, NotIn and AnyLike do not fail: the loop body
  appends \<open>name IN (?)\<close>, \<open>name NOT IN (?)\<close> or \<open>(name LIKE ?)\<close> and appends \<open>v\<close> as the
  one argument; a scope of that one filter compiles to the WHERE fragment of that clause.
\<close>

theorem scalar_as_singleton_list:
  assumes "\<not> IsJSON (codec b) f" and "filterValue b f = Inr (name, v)" and "\<not> isList v"
  shows "(operator f = In \<longrightarrow>
           whereFilter b f acc = Inr (fst acc @ [name @ '' IN (?)''], snd acc @ [v])
           \<and> (filters q = [f] \<and> ancestors q = [] \<longrightarrow>
                buildWhere b q = Inr \<lparr>Raw = '' WHERE '' @ name @ '' IN (?)'', Args = [v]\<rparr>))
       \<and> (operator f = NotIn \<longrightarrow>
           whereFilter b f acc = Inr (fst acc @ [name @ '' NOT IN (?)''], snd acc @ [v])
           \<and> (filters q = [f] \<and> ancestors q = [] \<longrightarrow>
                buildWhere b q = Inr \<lparr>Raw = '' WHERE '' @ name @ '' NOT IN (?)'', Args = [v]\<rparr>))
       \<and> (operator f = AnyLike \<longrightarrow>
           whereFilter b f acc = Inr (fst acc @ [''('' @ name @ '' LIKE ?)''], snd acc @ [v])
           \<and> (filters q = [f] \<and> ancestors q = [] \<longrightarrow>
                buildWhere b q = Inr \<lparr>Raw = '' WHERE ('' @ name @ '' LIKE ?)'', Args = [v]\<rparr>))"
proof -
  have step: "whereFilter b f a = whereOperator (operator f) name v a" for a
    using whereFilter_filterValue [OF assms(1), of a] assms(2) by simp
  have l: "asList v = [v]"
    using assms(3) by (cases v) (simp_all add: asList_def isList_def)
  have i: "operator f = In \<Longrightarrow>
      whereFilter b f a = Inr (fst a @ [name @ '' IN (?)''], snd a @ [v])" for a
    using whereOperator_In [OF l, of name a] by (simp add: step)
  have n: "operator f = NotIn \<Longrightarrow>
      whereFilter b f a = Inr (fst a @ [name @ '' NOT IN (?)''], snd a @ [v])" for a
    using whereOperator_NotIn [OF l, of name a] by (simp add: step)
  have k: "operator f = AnyLike \<Longrightarrow>
      whereFilter b f a = Inr (fst a @ [''('' @ name @ '' LIKE ?)''], snd a @ [v])" for a
    using whereOperator_AnyLike [OF l, of name a] by (simp add: step)
  show ?thesis
    using i [of acc] n [of acc] k [of acc] i [of "([], [])"] n [of "([], [])"] k [of "([], [])"]
    by (auto simp: buildWhere_def)
qed

theorem scalar_as_singleton_list_witness:
  "whereFilter exampleBuilder \<lparr>field = ''Age'', operator = In, fvalue = VInt 7\<rparr> ([], [])
     = Inr ([''`Age` IN (?)''], [VInt 7])
   \<and> buildWhere exampleBuilder
        (emptyScope\<lparr>filters := [\<lparr>field = ''Name'', operator = AnyLike, fvalue = VStr ''a%''\<rparr>]\<rparr>)
     = Inr \<lparr>Raw = '' WHERE (`Name` LIKE ?)'', Args = [VStr ''a%'']\<rparr>"
proof -
  let ?f = "\<lparr>field = ''Age'', operator = In, fvalue = VInt 7\<rparr>"
  let ?g = "\<lparr>field = ''Name'', operator = AnyLike, fvalue = VStr ''a%''\<rparr>"
  have j: "\<not> IsJSON (codec exampleBuilder) h" for h
    by (simp add: exampleBuilder_def exampleCodec_def)
  have vf: "filterValue exampleBuilder ?f = Inr (''`Age`'', VInt 7)"
    by (simp add: filterValue_def foldKey_def Field_def keyFieldName_def pkColumn_def
        exampleBuilder_def exampleCodec_def mysql_def mysqlQuote_def)
  have vg: "filterValue exampleBuilder ?g = Inr (''`Name`'', VStr ''a%'')"
    by (simp add: filterValue_def foldKey_def Field_def keyFieldName_def pkColumn_def
        exampleBuilder_def exampleCodec_def mysql_def mysqlQuote_def)
  have sf: "\<not> isList (VInt 7)" and sg: "\<not> isList (VStr ''a%'')"
    by (simp_all add: isList_def)
  have a: "whereFilter exampleBuilder ?f ([], []) = Inr ([''`Age` IN (?)''], [VInt 7])"
    using scalar_as_singleton_list [OF j [of ?f] vf sf, of "([], [])"] by simp
  have b: "buildWhere exampleBuilder (emptyScope\<lparr>filters := [?g]\<rparr>)
     = Inr \<lparr>Raw = '' WHERE (`Name` LIKE ?)'', Args = [VStr ''a%'']\<rparr>"
    using scalar_as_singleton_list [OF j [of ?g] vg sg, of _ "emptyScope\<lparr>filters := [?g]\<rparr>"]
    by (simp add: emptyScope_def)
  show ?thesis using a b by simp
qed

section \<open>Properties of SELECT statements\<close>

lemma ancestorGroup_acc:
  "ancestorGroup b xs st =
    (case ancestorGroup b xs ([], []) of
       Inl err \<Rightarrow> Inl err
     | Inr r \<Rightarrow> Inr (fst st @ fst r, snd st @ snd r))"
proof (induction xs arbitrary: st)
  case Nil
  show ?case by simp
next
  case (Cons x xs)
  show ?case
  proof (cases "ancestorArg b x")
    case (Inl e)
    then show ?thesis by simp
  next
    case (Inr a)
    let ?s = "Quote (dialect b) pkColumn @ '' LIKE '' @ variable @ '' OR ''"
    have 1: "ancestorGroup b (x # xs) st = ancestorGroup b xs (fst st @ ?s, snd st @ [a])"
      using Inr by simp
    have 2: "ancestorGroup b (x # xs) ([], []) = ancestorGroup b xs (?s, [a])"
      using Inr by simp
    show ?thesis
    proof (cases "ancestorGroup b xs ([], [])")
      case (Inl e)
      then show ?thesis
        using Cons.IH [of "(fst st @ ?s, snd st @ [a])"] Cons.IH [of "(?s, [a])"]
        unfolding 1 2 by simp
    next
      case (Inr r)
      then show ?thesis
        using Cons.IH [of "(fst st @ ?s, snd st @ [a])"] Cons.IH [of "(?s, [a])"]
        unfolding 1 2 by simp
    qed
  qed
qed

lemma whereAncestor_acc:
  "whereAncestor b aa acc =
    (case whereAncestor b aa ([], []) of
       Inl err \<Rightarrow> Inl err
     | Inr r \<Rightarrow> Inr (fst acc @ fst r, snd acc @ snd r))"
proof (cases "isGroup aa")
  case True
  show ?thesis
  proof (cases "ancestorGroup b (data aa) ([], [])")
    case (Inl e)
    then show ?thesis
      using True ancestorGroup_acc [of b "data aa" "(''('', snd acc)"]
        ancestorGroup_acc [of b "data aa" "(''('', [])"]
      by (simp add: whereAncestor_def)
  next
    case (Inr r)
    then show ?thesis
      using True ancestorGroup_acc [of b "data aa" "(''('', snd acc)"]
        ancestorGroup_acc [of b "data aa" "(''('', [])"]
      by (simp add: whereAncestor_def split: sum.splits)
  qed
next
  case False
  then show ?thesis
    by (simp add: whereAncestor_def split: list.splits sum.splits)
qed

lemma whereAncestors_acc:
  "whereAncestors b as acc =
    (case whereAncestors b as ([], []) of
       Inl err \<Rightarrow> Inl err
     | Inr r \<Rightarrow> Inr (fst acc @ fst r, snd acc @ snd r))"
proof (induction as arbitrary: acc)
  case Nil
  show ?case by simp
next
  case (Cons aa as)
  show ?case
  proof (cases "whereAncestor b aa ([], [])")
    case (Inl e)
    then show ?thesis using whereAncestor_acc [of b aa acc] by simp
  next
    case (Inr r)
    have 1: "whereAncestors b (aa # as) acc
        = whereAncestors b as (fst acc @ fst r, snd acc @ snd r)"
      using Inr whereAncestor_acc [of b aa acc] by simp
    have 2: "whereAncestors b (aa # as) ([], []) = whereAncestors b as r"
      using Inr by simp
    show ?thesis
    proof (cases "whereAncestors b as ([], [])")
      case (Inl e)
      then show ?thesis
        using Cons.IH [of "(fst acc @ fst r, snd acc @ snd r)"] Cons.IH [of r]
        unfolding 1 2 by simp
    next
      case (Inr t)
      then show ?thesis
        using Cons.IH [of "(fst acc @ fst r, snd acc @ snd r)"] Cons.IH [of r]
        unfolding 1 2 by simp
    qed
  qed
qed

lemma whereOperator_length:
  assumes "whereOperator optr name v acc = Inr acc'"
  shows "length (fst acc') = Suc (length (fst acc))"
  using assms
  by (cases optr) (auto simp: whereOperator_def compare_def Let_def split: if_splits sum.splits)

lemma whereFilter_length:
  assumes "whereFilter b f acc = Inr acc'"
  shows "length (fst acc') = Suc (length (fst acc))"
  using assms whereOperator_length
  by (auto simp: whereFilter_def split: if_splits sum.splits prod.splits)

lemma whereFilters_length:
  assumes "whereFilters b fs acc = Inr acc'"
  shows "length (fst acc') = length (fst acc) + length fs"
  using assms
proof (induction fs arbitrary: acc)
  case Nil
  then show ?case by simp
next
  case (Cons f fs)
  then obtain a where a: "whereFilter b f acc = Inr a" and r: "whereFilters b fs a = Inr acc'"
    by (auto split: sum.splits)
  show ?case using Cons.IH [OF r] whereFilter_length [OF a] by simp
qed

lemma ancestorGroup_args:
  assumes "ancestorGroup b xs st = Inr st'"
  shows "length (snd st') = length (snd st) + length xs"
  using assms
  by (induction xs arbitrary: st) (auto split: sum.splits)

lemma whereAncestor_length:
  assumes "whereAncestor b aa acc = Inr acc'"
  shows "length (fst acc') = Suc (length (fst acc))"
  using assms
  by (auto simp: whereAncestor_def split: if_splits sum.splits prod.splits list.splits)

lemma whereAncestors_length:
  assumes "whereAncestors b as acc = Inr acc'"
  shows "length (fst acc') = length (fst acc) + length as"
  using assms
proof (induction as arbitrary: acc)
  case Nil
  then show ?case by simp
next
  case (Cons aa as)
  then obtain a where a: "whereAncestor b aa acc = Inr a" and r: "whereAncestors b as a = Inr acc'"
    by (auto split: sum.splits)
  show ?case using Cons.IH [OF r] whereAncestor_length [OF a] by simp
qed

lemma buildWhere_parts:
  assumes "whereFilters b (filters q) ([], []) = Inr (ws, as)"
    and "whereAncestors b (ancestors q) ([], []) = Inr (wa, aa)"
  shows "buildWhere b q = Inr \<lparr>Raw = whereText (ws @ wa), Args = as @ aa\<rparr>"
  using assms whereAncestors_acc [of b "ancestors q" "(ws, as)"]
  by (simp add: buildWhere_def whereText_def)

lemma buildWhere_no_clause:
  assumes "whereFilters b (filters q) ([], []) = Inr (ws, as)"
    and "whereAncestors b (ancestors q) ([], []) = Inr (wa, aa)"
    and "ws @ wa = []"
  shows "as @ aa = []"
proof -
  have "filters q = []" using whereFilters_length [OF assms(1)] assms(3) by simp
  moreover have "ancestors q = []" using whereAncestors_length [OF assms(2)] assms(3) by simp
  ultimately show ?thesis using assms(1,2) by simp
qed

lemma whereText_empty: "whereText ws = [] \<longleftrightarrow> ws = []"
  by (simp add: whereText_def)

lemma buildStmt_parts:
  assumes "whereFilters b (filters q) ([], []) = Inr (ws, as)"
    and "whereAncestors b (ancestors q) ([], []) = Inr (wa, aa)"
  shows "buildStmt b q [] =
    Inr \<lparr>Raw = whereText (ws @ wa) @ Raw (buildOrder b q) @ Raw (buildLimitOffset b q),
         Args = as @ aa\<rparr>"
proof (cases "ws @ wa = []")
  case True
  then show ?thesis
    using buildWhere_parts [OF assms] buildWhere_no_clause [OF assms True]
    by (simp add: buildStmt_def isZero_def whereText_def)
next
  case False
  then have "whereText (ws @ wa) \<noteq> []" by (simp add: whereText_empty)
  then show ?thesis
    using buildWhere_parts [OF assms] by (simp add: buildStmt_def isZero_def)
qed

lemma whereFilter_softDelete:
  assumes "\<not> IsJSON (codec b) softDeleteFilter"
    and "Interface (codec b) softDeleteFilter = Inr VNil"
  shows "whereFilter b softDeleteFilter acc
    = Inr (fst acc @ [Quote (dialect b) softDeleteColumn @ '' IS NULL''], snd acc)"
proof -
  have "fvalue softDeleteFilter = VNil" by (simp add: softDeleteFilter_def)
  then have "filterValue b softDeleteFilter = Inr (columnName b softDeleteFilter, VNil)"
    using assms(2) by (rule filterValue_nil)
  moreover have "columnName b softDeleteFilter = Quote (dialect b) softDeleteColumn"
    by (simp add: columnName_def Field_def softDeleteFilter_def softDeleteColumn_def
        keyFieldName_def pkColumn_def)
  ultimately show ?thesis
    using whereFilter_filterValue [OF assms(1), of acc]
    by (simp add: whereOperator_def softDeleteFilter_def)
qed

lemma scopedQuery_simps:
  "ancestors (scopedQuery b e) = ancestors (query b)"
  "orders (scopedQuery b e) = orders (query b)"
  "limit (scopedQuery b e) = limit (query b)"
  "offset (scopedQuery b e) = offset (query b)"
  "lockMode (scopedQuery b e) = lockMode (query b)"
  by (simp_all add: scopedQuery_def)

lemma buildOrder_scoped: "buildOrder b (scopedQuery b e) = buildOrder b (query b)"
  by (simp add: buildOrder_def scopedQuery_simps)

lemma buildLimitOffset_scoped:
  "buildLimitOffset b (scopedQuery b e) = buildLimitOffset b (query b)"
  by (simp add: buildLimitOffset_def scopedQuery_simps)

lemma whereFilters_scoped:
  assumes "\<not> IsJSON (codec b) softDeleteFilter"
    and "Interface (codec b) softDeleteFilter = Inr VNil"
    and "whereFilters b (filters (query b)) ([], []) = Inr (ws, as)"
  shows "whereFilters b (filters (scopedQuery b e)) ([], [])
    = Inr (ws @ (if \<not> noScope (query b) \<and> hasSoftDelete e
                 then [Quote (dialect b) softDeleteColumn @ '' IS NULL''] else []), as)"
  using assms(3) whereFilter_softDelete [OF assms(1,2), of "(ws, as)"]
  by (simp add: scopedQuery_def whereFilters_append)

text \<open>
  Claim C4. In the statement of \<open>getStmt\<close> the clause \<open>soft-delete column IS NULL\<close>
  follows the clauses of the filters of the scope, before the clauses of its ancestors,
  exactly when the scope has not disabled scoping and the entity declares the
  soft-delete column; otherwise the WHERE fragment holds the clauses of the scope alone.
  Here \<open>ws\<close>, \<open>as\<close> and \<open>wa\<close>, \<open>aa\<close> are the clauses and arguments that the filters
  and the ancestors of the scope compile to; the appended filter is no JSON filter and
  \<open>Interface\<close> hands its nil on as nil.
\<close>

theorem soft_delete_filter_iff:
  assumes "\<not> IsJSON (codec b) softDeleteFilter"
    and "Interface (codec b) softDeleteFilter = Inr VNil"
    and "whereFilters b (filters (query b)) ([], []) = Inr (ws, as)"
    and "whereAncestors b (ancestors (query b)) ([], []) = Inr (wa, aa)"
  shows "getStmt b e =
    Inr \<lparr>Raw = Raw (buildSelect b (query b)) @ '' FROM '' @ GetTable (dialect b) (Name e)
            @ whereText (ws @ (if \<not> noScope (query b) \<and> hasSoftDelete e
                               then [Quote (dialect b) softDeleteColumn @ '' IS NULL'']
                               else []) @ wa)
            @ Raw (buildOrder b (query b)) @ Raw (buildLimitOffset b (query b))
            @ lockClause (lockMode (query b)) @ '';'',
         Args = as @ aa\<rparr>"
proof -
  let ?sd = "if \<not> noScope (query b) \<and> hasSoftDelete e
             then [Quote (dialect b) softDeleteColumn @ '' IS NULL''] else []"
  have f: "whereFilters b (filters (scopedQuery b e)) ([], []) = Inr (ws @ ?sd, as)"
    using assms(1,2,3) by (rule whereFilters_scoped)
  have a: "whereAncestors b (ancestors (scopedQuery b e)) ([], []) = Inr (wa, aa)"
    using assms(4) by (simp add: scopedQuery_simps)
  have "buildStmt b (scopedQuery b e) [] =
    Inr \<lparr>Raw = whereText ((ws @ ?sd) @ wa) @ Raw (buildOrder b (scopedQuery b e))
            @ Raw (buildLimitOffset b (scopedQuery b e)),
         Args = as @ aa\<rparr>"
    using f a by (rule buildStmt_parts)
  then show ?thesis
    by (simp add: getStmt_def buildOrder_scoped buildLimitOffset_scoped scopedQuery_simps)
qed

theorem soft_delete_filter_iff_witness:
  "getStmt (exampleBuilder\<lparr>query := emptyScope\<lparr>filters :=
        [\<lparr>field = ''Age'', operator = GreaterThan, fvalue = VInt 18\<rparr>]\<rparr>\<rparr>)
      (exampleEntity\<lparr>hasSoftDelete := True\<rparr>)
     = Inr \<lparr>Raw = ''SELECT * FROM `User` WHERE `Age` > ? AND `$Deleted` IS NULL;'',
            Args = [VInt 18]\<rparr>
   \<and> getStmt (exampleBuilder\<lparr>query := emptyScope\<lparr>noScope := True\<rparr>\<rparr>)
      (exampleEntity\<lparr>hasSoftDelete := True\<rparr>)
     = Inr \<lparr>Raw = ''SELECT * FROM `User`;'', Args = []\<rparr>"
proof -
  let ?f = "\<lparr>field = ''Age'', operator = GreaterThan, fvalue = VInt 18\<rparr>"
  let ?b = "exampleBuilder\<lparr>query := emptyScope\<lparr>filters := [?f]\<rparr>\<rparr>"
  let ?c = "exampleBuilder\<lparr>query := emptyScope\<lparr>noScope := True\<rparr>\<rparr>"
  let ?e = "exampleEntity\<lparr>hasSoftDelete := True\<rparr>"
  have j: "\<not> IsJSON (codec ?b) softDeleteFilter" "\<not> IsJSON (codec ?c) softDeleteFilter"
    by (simp_all add: exampleBuilder_def exampleCodec_def)
  have i: "Interface (codec ?b) softDeleteFilter = Inr VNil"
    "Interface (codec ?c) softDeleteFilter = Inr VNil"
    by (simp_all add: exampleBuilder_def exampleCodec_def softDeleteFilter_def)
  have wf: "whereFilters ?b (filters (query ?b)) ([], []) = Inr ([''`Age` > ?''], [VInt 18])"
    by (simp add: whereFilter_def foldKey_def whereOperator_def compare_def Field_def
        keyFieldName_def pkColumn_def variable_def exampleBuilder_def exampleCodec_def
        mysql_def mysqlQuote_def emptyScope_def)
  have wa: "whereAncestors ?b (ancestors (query ?b)) ([], []) = Inr ([], [])"
    by (simp add: emptyScope_def)
  have wf': "whereFilters ?c (filters (query ?c)) ([], []) = Inr ([], [])"
    by (simp add: emptyScope_def)
  have wa': "whereAncestors ?c (ancestors (query ?c)) ([], []) = Inr ([], [])"
    by (simp add: emptyScope_def)
  have 1: "getStmt ?b ?e
     = Inr \<lparr>Raw = ''SELECT * FROM `User` WHERE `Age` > ? AND `$Deleted` IS NULL;'',
            Args = [VInt 18]\<rparr>"
    using soft_delete_filter_iff [OF j(1) i(1) wf wa, of ?e]
    by (simp add: buildSelect_def buildOrder_def buildLimitOffset_def lockClause_def
        whereText_def softDeleteColumn_def exampleBuilder_def exampleEntity_def
        mysql_def mysqlQuote_def emptyScope_def)
  have 2: "getStmt ?c ?e = Inr \<lparr>Raw = ''SELECT * FROM `User`;'', Args = []\<rparr>"
    using soft_delete_filter_iff [OF j(2) i(2) wf' wa', of ?e]
    by (simp add: buildSelect_def buildOrder_def buildLimitOffset_def lockClause_def
        whereText_def softDeleteColumn_def exampleBuilder_def exampleEntity_def
        mysql_def mysqlQuote_def emptyScope_def)
  show ?thesis using 1 2 by simp
qed

lemma buildWhere_shape:
  assumes "buildWhere b q = Inr w"
  shows "\<exists>ws. Raw w = whereText ws \<and> (ws = [] \<longrightarrow> Args w = [])"
proof -
  obtain acc wheres args where f: "whereFilters b (filters q) ([], []) = Inr acc"
    and a: "whereAncestors b (ancestors q) acc = Inr (wheres, args)"
    and w: "w = \<lparr>Raw = (if 0 < length wheres then '' WHERE '' @ Join wheres '' AND '' else []),
                  Args = args\<rparr>"
    using assms by (auto simp: buildWhere_def split: sum.splits prod.splits)
  have len: "length wheres = length (filters q) + length (ancestors q)"
    using whereFilters_length [OF f] whereAncestors_length [OF a] by simp
  have "wheres = [] \<longrightarrow> args = []"
  proof
    assume "wheres = []"
    then have "filters q = []" and "ancestors q = []" using len by simp_all
    then show "args = []" using f a by auto
  qed
  then have "Raw w = whereText wheres \<and> (wheres = [] \<longrightarrow> Args w = [])"
    using w by (simp add: whereText_def)
  then show ?thesis by blast
qed

lemma buildStmt_of_buildWhere:
  assumes "buildWhere b q = Inr w"
  shows "buildStmt b q [] =
    Inr \<lparr>Raw = Raw w @ Raw (buildOrder b q) @ Raw (buildLimitOffset b q), Args = Args w\<rparr>"
proof -
  obtain ws where ws: "Raw w = whereText ws" "ws = [] \<longrightarrow> Args w = []"
    using buildWhere_shape [OF assms] by blast
  show ?thesis
  proof (cases "ws = []")
    case True
    then show ?thesis using assms ws by (simp add: buildStmt_def isZero_def whereText_def)
  next
    case False
    then show ?thesis using assms ws by (simp add: buildStmt_def isZero_def whereText_def)
  qed
qed

lemma getStmt_of_buildWhere:
  "getStmt b e =
    (case buildWhere b (scopedQuery b e) of
       Inl err \<Rightarrow> Inl err
     | Inr w \<Rightarrow>
         Inr \<lparr>Raw = Raw (buildSelect b (query b)) @ '' FROM '' @ GetTable (dialect b) (Name e)
                 @ Raw w @ Raw (buildOrder b (query b)) @ Raw (buildLimitOffset b (query b))
                 @ lockClause (lockMode (query b)) @ '';'',
              Args = Args w\<rparr>)"
proof (cases "buildWhere b (scopedQuery b e)")
  case (Inl err)
  then show ?thesis by (simp add: getStmt_def buildStmt_def)
next
  case (Inr w)
  then show ?thesis
    using buildStmt_of_buildWhere [OF Inr]
    by (simp add: getStmt_def buildOrder_scoped buildLimitOffset_scoped scopedQuery_simps)
qed

text \<open>
  Claim C6, as the code has it. The fragments of a compiled SELECT statement come in the
  order SELECT, FROM, WHERE, ORDER BY, LIMIT/OFFSET, lock clause, terminator: the lock
  clause follows LIMIT/OFFSET. Each fragment brings its own leading separator, and an
  omitted fragment is the empty text: the WHERE fragment is empty or \<open>WHERE\<close> and the
  clauses joined by \<open>AND\<close>, the ORDER BY fragment is empty without orders, LIMIT and
  OFFSET are empty unless positive, and the lock clause is empty without a lock.
\<close>

theorem select_fragment_order:
  "getStmt b e =
    (case buildWhere b (scopedQuery b e) of
       Inl err \<Rightarrow> Inl err
     | Inr w \<Rightarrow>
         Inr \<lparr>Raw = Raw (buildSelect b (query b)) @ '' FROM '' @ GetTable (dialect b) (Name e)
                 @ Raw w @ Raw (buildOrder b (query b)) @ Raw (buildLimitOffset b (query b))
                 @ lockClause (lockMode (query b)) @ '';'',
              Args = Args w\<rparr>)
   \<and> (\<forall>w. buildWhere b (scopedQuery b e) = Inr w \<longrightarrow>
        (\<exists>ws. Raw w = (if ws = [] then [] else '' WHERE '' @ Join ws '' AND '')))
   \<and> Raw (buildOrder b (query b))
       = (if orders (query b) = [] then []
          else '' ORDER BY '' @ Join (map (orderTerm b) (orders (query b))) '','')
   \<and> Raw (buildLimitOffset b (query b))
       = (if 0 < limit (query b) then '' LIMIT '' @ Sprintd (limit (query b)) else [])
         @ (if 0 < offset (query b) then '' OFFSET '' @ Sprintd (offset (query b)) else [])
   \<and> lockClause (lockMode (query b))
       = (if lockMode (query b) = ReadLock then '' LOCK IN SHARE MODE''
          else if lockMode (query b) = WriteLock then '' FOR UPDATE'' else [])"
proof -
  have 1: "\<forall>w. buildWhere b (scopedQuery b e) = Inr w \<longrightarrow>
        (\<exists>ws. Raw w = (if ws = [] then [] else '' WHERE '' @ Join ws '' AND ''))"
    using buildWhere_shape [of b "scopedQuery b e"] unfolding whereText_def by blast
  have 2: "Raw (buildOrder b (query b))
       = (if orders (query b) = [] then []
          else '' ORDER BY '' @ Join (map (orderTerm b) (orders (query b))) '','')"
    by (simp add: buildOrder_def)
  have 3: "Raw (buildLimitOffset b (query b))
       = (if 0 < limit (query b) then '' LIMIT '' @ Sprintd (limit (query b)) else [])
         @ (if 0 < offset (query b) then '' OFFSET '' @ Sprintd (offset (query b)) else [])"
    by (simp add: buildLimitOffset_def)
  have 4: "lockClause (lockMode (query b))
       = (if lockMode (query b) = ReadLock then '' LOCK IN SHARE MODE''
          else if lockMode (query b) = WriteLock then '' FOR UPDATE'' else [])"
    by (cases "lockMode (query b)") (simp_all add: lockClause_def)
  show ?thesis
    using getStmt_of_buildWhere [of b e] 1 2 3 4 by blast
qed

lemma Sprintd_10: "Sprintd 10 = ''10''"
  by (simp add: Sprintd_def decimal.simps)

lemma buildWhere_lockedScope:
  "buildWhere lockedBuilder (scopedQuery lockedBuilder exampleEntity)
    = Inr \<lparr>Raw = [], Args = []\<rparr>"
  by (simp add: buildWhere_def scopedQuery_def lockedBuilder_def lockedScope_def
      emptyScope_def exampleEntity_def)

lemma lockedBuilder_fragments:
  "Raw (buildSelect lockedBuilder (query lockedBuilder)) = ''SELECT *''"
  "GetTable (dialect lockedBuilder) (Name exampleEntity) = ''`User`''"
  "Raw (buildOrder lockedBuilder (query lockedBuilder)) = '' ORDER BY `Name` ASC''"
  "Raw (buildLimitOffset lockedBuilder (query lockedBuilder)) = '' LIMIT 10''"
  "lockClause (lockMode (query lockedBuilder)) = '' FOR UPDATE''"
  by (simp_all add: buildSelect_def buildOrder_def orderTerm_def buildLimitOffset_def
      lockClause_def Sprintd_10 keyFieldName_def lockedBuilder_def lockedScope_def
      emptyScope_def exampleBuilder_def exampleEntity_def mysql_def mysqlQuote_def)

lemma getStmt_lockedScope:
  "getStmt lockedBuilder exampleEntity
    = Inr \<lparr>Raw = ''SELECT * FROM `User` ORDER BY `Name` ASC LIMIT 10 FOR UPDATE;'',
           Args = []\<rparr>"
  by (simp add: getStmt_of_buildWhere buildWhere_lockedScope lockedBuilder_fragments)

theorem select_fragment_order_witness:
  "getStmt lockedBuilder exampleEntity
    = Inr \<lparr>Raw = ''SELECT * FROM `User` ORDER BY `Name` ASC LIMIT 10 FOR UPDATE;'',
           Args = []\<rparr>
   \<and> (\<exists>ws. Raw \<lparr>Raw = [], Args = []\<rparr>
          = (if ws = [] then [] else '' WHERE '' @ Join ws '' AND ''))"
proof -
  have "getStmt lockedBuilder exampleEntity
    = Inr \<lparr>Raw = ''SELECT * FROM `User` ORDER BY `Name` ASC LIMIT 10 FOR UPDATE;'',
           Args = []\<rparr>"
    using select_fragment_order [of lockedBuilder exampleEntity]
    by (simp add: buildWhere_lockedScope lockedBuilder_fragments)
  moreover have "\<exists>ws. Raw \<lparr>Raw = [], Args = []\<rparr>
          = (if ws = [] then [] else '' WHERE '' @ Join ws '' AND '')"
    using select_fragment_order [of lockedBuilder exampleEntity] buildWhere_lockedScope
    by blast
  ultimately show ?thesis by blast
qed

text \<open>
  Claim C6 as the specification words it puts the lock clause between WHERE and ORDER BY.
  For an ordered, limited scope with a write lock the statement of \<open>getStmt\<close> ends in
  \<open>LIMIT 10 FOR UPDATE\<close>, which is not the text in the order of the specification.
\<close>

theorem lock_clause_before_order_counterexample:
  "getStmt lockedBuilder exampleEntity
    = Inr \<lparr>Raw = ''SELECT * FROM `User` ORDER BY `Name` ASC LIMIT 10 FOR UPDATE;'',
           Args = []\<rparr>
   \<and> lockBeforeOrder lockedBuilder exampleEntity
    = Inr ''SELECT * FROM `User` FOR UPDATE ORDER BY `Name` ASC LIMIT 10;''
   \<and> ''SELECT * FROM `User` ORDER BY `Name` ASC LIMIT 10 FOR UPDATE;''
    \<noteq> ''SELECT * FROM `User` FOR UPDATE ORDER BY `Name` ASC LIMIT 10;''"
proof -
  have "lockBeforeOrder lockedBuilder exampleEntity
    = Inr ''SELECT * FROM `User` FOR UPDATE ORDER BY `Name` ASC LIMIT 10;''"
    by (simp add: lockBeforeOrder_def buildWhere_lockedScope lockedBuilder_fragments)
  then show ?thesis using getStmt_lockedScope by simp
qed

section \<open>Properties of the row-set delete\<close>

lemma Join_replicate_Suc:
  "Join (replicate (Suc n) s) sep = s @ concat (replicate n (sep @ s))"
  by (induction n) simp_all

lemma concatKeysLoop_complete_tail:
  assumes "\<forall>k \<in> set ks. \<not> Incomplete k" and "i \<noteq> 0"
  shows "concatKeysLoop b t (rowsOfKeys ks) i st =
    Inr (fst st @ concat (replicate (length ks) '',?''),
         snd st @ map (\<lambda>k. VStr (stringPk (codec b) (Some k))) ks)"
  using assms
proof (induction ks arbitrary: i st)
  case Nil
  show ?case by (simp add: rowsOfKeys_def)
next
  case (Cons k ks)
  have "concatKeysLoop b t (rowsOfKeys (k # ks)) i st
      = concatKeysLoop b t (rowsOfKeys ks) (Suc i)
          (fst st @ '',?'', snd st @ [VStr (stringPk (codec b) (Some k))])"
    using Cons.prems by (simp add: rowsOfKeys_def variable_def)
  also have "\<dots> = Inr ((fst st @ '',?'') @ concat (replicate (length ks) '',?''),
         (snd st @ [VStr (stringPk (codec b) (Some k))])
           @ map (\<lambda>k. VStr (stringPk (codec b) (Some k))) ks)"
    using Cons.IH [of "Suc i" "(fst st @ '',?'', snd st @ [VStr (stringPk (codec b) (Some k))])"]
      Cons.prems by simp
  finally show ?case by simp
qed

lemma concatKeysLoop_complete:
  assumes "\<forall>k \<in> set ks. \<not> Incomplete k"
  shows "concatKeysLoop b t (rowsOfKeys ks) 0 (buf, [])
    = Inr (buf @ Join (replicate (length ks) ''?'') '','',
           map (\<lambda>k. VStr (stringPk (codec b) (Some k))) ks)"
proof (cases ks)
  case Nil
  then show ?thesis by (simp add: rowsOfKeys_def)
next
  case (Cons k ks')
  have "concatKeysLoop b t (rowsOfKeys ks) 0 (buf, [])
      = concatKeysLoop b t (rowsOfKeys ks') (Suc 0)
          (buf @ ''?'', [VStr (stringPk (codec b) (Some k))])"
    using assms Cons by (simp add: rowsOfKeys_def variable_def)
  also have "\<dots> = Inr ((buf @ ''?'') @ concat (replicate (length ks') '',?''),
         [VStr (stringPk (codec b) (Some k))]
           @ map (\<lambda>k. VStr (stringPk (codec b) (Some k))) ks')"
    using concatKeysLoop_complete_tail
      [of ks' "Suc 0" b t "(buf @ ''?'', [VStr (stringPk (codec b) (Some k))])"] assms Cons
    by simp
  finally show ?thesis
    using Cons Join_replicate_Suc [of "length ks'" "''?''" "'',''"] by simp
qed

lemma concatKeysLoop_incomplete:
  assumes "\<exists>k \<in> set ks. Incomplete k"
  shows "concatKeysLoop b t (rowsOfKeys ks) i st = Inl (IncompleteKey t)"
  using assms
proof (induction ks arbitrary: i st)
  case Nil
  then show ?case by simp
next
  case (Cons k ks)
  show ?case
  proof (cases "Incomplete k")
    case True
    then show ?thesis by (simp add: rowsOfKeys_def)
  next
    case False
    then have "\<exists>k \<in> set ks. Incomplete k" using Cons.prems by auto
    then have "concatKeysLoop b t (rowsOfKeys ks) j u = Inl (IncompleteKey t)" for j u
      by (rule Cons.IH)
    then show ?thesis using False by (simp add: rowsOfKeys_def)
  qed
qed

text \<open>
  Claim C7. A soft delete (\<open>isSoftDelete\<close> true) of rows whose key fields hold the keys
  \<open>ks\<close>, against an entity that declares the soft-delete column: when every key is
  complete, the statement is \<open>UPDATE table SET deleted = ? WHERE key IN (?,...,?);\<close>
  with one placeholder for each key and the arguments \<open>now\<close>, then the key strings in
  the order of the rows, so it is no DELETE; when some key is incomplete, the
  compilation returns the incomplete-key error and no statement.
\<close>

theorem soft_delete_is_update:
  assumes "hasSoftDelete e" and "keyFields e = rowsOfKeys ks"
  shows "((\<forall>k \<in> set ks. \<not> Incomplete k) \<longrightarrow>
            deleteStmt b now e True =
              Inr \<lparr>Raw = ''UPDATE '' @ GetTable (dialect b) (Name e) @ '' SET ''
                      @ Quote (dialect b) softDeleteColumn @ '' = ? WHERE ''
                      @ Quote (dialect b) pkColumn @ '' IN (''
                      @ Join (replicate (length ks) ''?'') '','' @ '');'',
                   Args = VStr now # map (\<lambda>k. VStr (stringPk (codec b) (Some k))) ks\<rparr>)
       \<and> ((\<exists>k \<in> set ks. Incomplete k) \<longrightarrow>
            deleteStmt b now e True = Inl (IncompleteKey (typeName e)))"
proof (intro conjI impI)
  assume "\<forall>k \<in> set ks. \<not> Incomplete k"
  then have "concatKeys b e
      = Inr \<lparr>Raw = ''('' @ Join (replicate (length ks) ''?'') '','' @ '')'',
             Args = map (\<lambda>k. VStr (stringPk (codec b) (Some k))) ks\<rparr>"
    using concatKeysLoop_complete [of ks b "typeName e" "''(''"] assms(2)
    by (simp add: concatKeys_def)
  then show "deleteStmt b now e True =
      Inr \<lparr>Raw = ''UPDATE '' @ GetTable (dialect b) (Name e) @ '' SET ''
              @ Quote (dialect b) softDeleteColumn @ '' = ? WHERE ''
              @ Quote (dialect b) pkColumn @ '' IN (''
              @ Join (replicate (length ks) ''?'') '','' @ '');'',
           Args = VStr now # map (\<lambda>k. VStr (stringPk (codec b) (Some k))) ks\<rparr>"
    using assms(1) by (simp add: deleteStmt_def softDeleteStmt_def variable_def)
next
  assume "\<exists>k \<in> set ks. Incomplete k"
  then have "concatKeys b e = Inl (IncompleteKey (typeName e))"
    using concatKeysLoop_incomplete [of ks b "typeName e" 0 "(''('', [])"] assms(2)
    by (simp add: concatKeys_def)
  then show "deleteStmt b now e True = Inl (IncompleteKey (typeName e))"
    using assms(1) by (simp add: deleteStmt_def softDeleteStmt_def)
qed

theorem soft_delete_is_update_witness:
  "deleteStmt exampleBuilder ''2018-09-10 08:00:00''
      (exampleEntity\<lparr>hasSoftDelete := True,
         keyFields := rowsOfKeys [exampleKey ''K1'', exampleKey ''K2'']\<rparr>) True
     = Inr \<lparr>Raw = ''UPDATE `User` SET `$Deleted` = ? WHERE `$Key` IN (?,?);'',
            Args = [VStr ''2018-09-10 08:00:00'', VStr ''K1'', VStr ''K2'']\<rparr>
   \<and> deleteStmt exampleBuilder ''2018-09-10 08:00:00''
      (exampleEntity\<lparr>hasSoftDelete := True,
         keyFields := rowsOfKeys [exampleKey ''K1'', exampleKey []]\<rparr>) True
     = Inl (IncompleteKey ''User'')"
proof -
  let ?e = "exampleEntity\<lparr>hasSoftDelete := True,
         keyFields := rowsOfKeys [exampleKey ''K1'', exampleKey ''K2'']\<rparr>"
  let ?g = "exampleEntity\<lparr>hasSoftDelete := True,
         keyFields := rowsOfKeys [exampleKey ''K1'', exampleKey []]\<rparr>"
  have c: "\<forall>k \<in> set [exampleKey ''K1'', exampleKey ''K2'']. \<not> Incomplete k"
    by (simp add: exampleKey_def Incomplete_def)
  have i: "\<exists>k \<in> set [exampleKey ''K1'', exampleKey []]. Incomplete k"
    by (simp add: exampleKey_def Incomplete_def)
  have he: "hasSoftDelete ?e" "keyFields ?e = rowsOfKeys [exampleKey ''K1'', exampleKey ''K2'']"
    and hg: "hasSoftDelete ?g" "keyFields ?g = rowsOfKeys [exampleKey ''K1'', exampleKey []]"
    by (simp_all add: exampleEntity_def)
  have "deleteStmt exampleBuilder ''2018-09-10 08:00:00'' ?e True
     = Inr \<lparr>Raw = ''UPDATE '' @ GetTable (dialect exampleBuilder) (Name ?e) @ '' SET ''
               @ Quote (dialect exampleBuilder) softDeleteColumn @ '' = ? WHERE ''
               @ Quote (dialect exampleBuilder) pkColumn @ '' IN (''
               @ Join (replicate (length [exampleKey ''K1'', exampleKey ''K2'']) ''?'') '',''
               @ '');'',
            Args = VStr ''2018-09-10 08:00:00''
               # map (\<lambda>k. VStr (stringPk (codec exampleBuilder) (Some k)))
                   [exampleKey ''K1'', exampleKey ''K2'']\<rparr>"
    using soft_delete_is_update [OF he] c by blast
  then have 1: "deleteStmt exampleBuilder ''2018-09-10 08:00:00'' ?e True
     = Inr \<lparr>Raw = ''UPDATE `User` SET `$Deleted` = ? WHERE `$Key` IN (?,?);'',
            Args = [VStr ''2018-09-10 08:00:00'', VStr ''K1'', VStr ''K2'']\<rparr>"
    by (simp add: exampleEntity_def exampleBuilder_def exampleCodec_def exampleKeyString_def
        exampleKey_def mysql_def mysqlQuote_def softDeleteColumn_def pkColumn_def
        numeral_2_eq_2)
  have "deleteStmt exampleBuilder ''2018-09-10 08:00:00'' ?g True
     = Inl (IncompleteKey (typeName ?g))"
    using soft_delete_is_update [OF hg] i by blast
  then have 2: "deleteStmt exampleBuilder ''2018-09-10 08:00:00'' ?g True
     = Inl (IncompleteKey ''User'')"
    by (simp add: exampleEntity_def)
  show ?thesis using 1 2 by simp
qed

section \<open>Properties of the bulk update from a struct\<close>

lemma concat_Join:
  assumes "xs \<noteq> []"
  shows "concat (map (\<lambda>x. x @ sep) xs) = Join xs sep @ sep"
  using assms
proof (induction xs)
  case Nil
  then show ?case by simp
next
  case (Cons x xs)
  then show ?case by (cases xs) simp_all
qed

lemma updateFields_Cons:
  "updateFields b cols (p # ps) st =
    (if \<not> participates cols p then updateFields b cols ps st
     else
       (case prop_Interface p of
          Inl err \<Rightarrow> Inl err
        | Inr it \<Rightarrow>
            updateFields b cols ps
              (fst st @ Quote (dialect b) (prop_Name p) @ '' = ?,'', snd st @ [it])))"
  by (auto simp: participates_def variable_def split: sum.splits)

lemma updateFields_valuesOf:
  "updateFields b cols props st =
    (case valuesOf (filter (participates cols) props) of
       Inl err \<Rightarrow> Inl err
     | Inr its \<Rightarrow>
         Inr (fst st @ concat (map (\<lambda>p. (Quote (dialect b) (prop_Name p) @ '' = ?'') @ '','')
                              (filter (participates cols) props)),
              snd st @ its))"
proof (induction props arbitrary: st)
  case Nil
  show ?case by simp
next
  case (Cons p ps)
  show ?case
  proof (cases "participates cols p")
    case False
    then show ?thesis
      using Cons.IH [of st]
      by (simp add: updateFields_Cons del: updateFields.simps split: sum.splits)
  next
    case True
    show ?thesis
    proof (cases "prop_Interface p")
      case (Inl err)
      then show ?thesis
        using True by (simp add: updateFields_Cons del: updateFields.simps split: sum.splits)
    next
      case (Inr it)
      let ?st = "(fst st @ Quote (dialect b) (prop_Name p) @ '' = ?,'', snd st @ [it])"
      have "updateFields b cols (p # ps) st = updateFields b cols ps ?st"
        using True Inr by (simp add: updateFields_Cons del: updateFields.simps)
      then show ?thesis
        using Cons.IH [of ?st] True Inr by (simp split: sum.splits)
    qed
  qed
qed

text \<open>
  Claim C5. For a struct whose properties are \<open>props\<close>, the SET clause of
  \<open>updateWithStruct\<close> lists, in order, exactly the properties that are not the key field
  and are named in the projection or not zero, each as \<open>name = ?\<close> with its value as the
  argument. The compilation returns the first error of \<open>Interface\<close> on such a property,
  and panics in \<open>Truncate\<close> when no property takes part.
\<close>

theorem struct_update_fields:
  assumes "checkSinglePtr m = None" and "SaveStruct m = Inr props"
  shows "updateWithStruct b m =
    (case valuesOf (filter (participates (projection (query b))) props) of
       Inl err \<Rightarrow> Inl err
     | Inr its \<Rightarrow>
         if filter (participates (projection (query b))) props = []
         then Inl (Panic ''truncation out of range'')
         else Inr \<lparr>Raw = Join (map (\<lambda>p. Quote (dialect b) (prop_Name p) @ '' = ?'')
                                 (filter (participates (projection (query b))) props)) '','',
                   Args = its\<rparr>)"
proof -
  let ?inc = "filter (participates (projection (query b))) props"
  let ?f = "\<lambda>p. Quote (dialect b) (prop_Name p) @ '' = ?''"
  show ?thesis
  proof (cases "valuesOf ?inc")
    case (Inl err)
    then show ?thesis
      using assms updateFields_valuesOf [of b "projection (query b)" props "([], [])"]
      by (simp add: updateWithStruct_def)
  next
    case (Inr its)
    then have loop: "updateFields b (projection (query b)) props ([], [])
        = Inr (concat (map (\<lambda>p. ?f p @ '','') ?inc), its)"
      using updateFields_valuesOf [of b "projection (query b)" props "([], [])"] by simp
    show ?thesis
    proof (cases "?inc = []")
      case True
      then show ?thesis
        using assms loop Inr by (simp add: updateWithStruct_def Truncate_def)
    next
      case False
      then have "map ?f ?inc \<noteq> []" by simp
      then have "concat (map (\<lambda>x. x @ '','') (map ?f ?inc)) = Join (map ?f ?inc) '','' @ '',''"
        by (rule concat_Join)
      then have c: "concat (map (\<lambda>p. ?f p @ '','') ?inc) = Join (map ?f ?inc) '','' @ '',''"
        by (simp add: comp_def)
      have "Truncate (Join (map ?f ?inc) '','' @ '','')
              (int (length (Join (map ?f ?inc) '','' @ '','')) - 1)
            = Inr (Join (map ?f ?inc) '','')"
        using Truncate_suffix [of "Join (map ?f ?inc) '',''" "'',''"] by simp
      then show ?thesis
        using assms loop Inr False unfolding c by (simp add: updateWithStruct_def)
    qed
  qed
qed

theorem struct_update_fields_witness:
  "updateWithStruct (exampleBuilder\<lparr>query := emptyScope\<lparr>projection := [''Age'']\<rparr>\<rparr>) exampleModel
     = Inr \<lparr>Raw = ''`Age` = ?,`Email` = ?'', Args = [VInt 0, VStr ''a@b'']\<rparr>"
proof -
  let ?b = "exampleBuilder\<lparr>query := emptyScope\<lparr>projection := [''Age'']\<rparr>\<rparr>"
  have c: "checkSinglePtr exampleModel = None" by (simp add: exampleModel_def)
  have s: "SaveStruct exampleModel = Inr
        [\<lparr>prop_Name = ''__key__'', prop_isZero = False, prop_Interface = Inr (VStr ''K1'')\<rparr>,
         \<lparr>prop_Name = ''Name'', prop_isZero = True, prop_Interface = Inr (VStr [])\<rparr>,
         \<lparr>prop_Name = ''Age'', prop_isZero = True, prop_Interface = Inr (VInt 0)\<rparr>,
         \<lparr>prop_Name = ''Email'', prop_isZero = False, prop_Interface = Inr (VStr ''a@b'')\<rparr>]"
    by (simp add: exampleModel_def)
  show ?thesis
    using struct_update_fields [OF c s, of ?b]
    by (simp add: participates_def has_def keyFieldName_def emptyScope_def exampleBuilder_def
        mysql_def mysqlQuote_def)
qed

section \<open>The conflict clause of upsert\<close>

lemma upsertColumns_key_abc:
  "upsertColumns [''A'', ''B''] [''$Key'', ''A'', ''B'', ''C''] = Inr [''$Key'', ''B'', ''C'']"
  by (simp add: upsertColumns_def removeOmitted.simps has_def)

lemma upsertColumns_abc:
  "upsertColumns [''A'', ''B''] [''A'', ''B'', ''C''] = Inr [''B'', ''C'']"
  by (simp add: upsertColumns_def removeOmitted.simps has_def)

lemma upsertColumns_panic:
  "upsertColumns [''A'', ''C''] [''A'', ''B'', ''C''] = Inl (Panic ''slice bounds out of range'')"
  by (simp add: upsertColumns_def removeOmitted.simps has_def)

text \<open>
  Claim C3 at a failing input. With the columns A, B, C (with or without the key column
  in front) and the omission list A, B, the loop removes A and skips B, which has moved
  into the place of A: the conflict clause of the statement updates B, an omitted column,
  and the key column when the entity lists it.
\<close>

theorem upsert_keeps_omitted_column:
  "upsertColumns [''A'', ''B''] [''A'', ''B'', ''C''] = Inr [''B'', ''C'']
   \<and> upsertColumns [''A'', ''B''] [''$Key'', ''A'', ''B'', ''C''] = Inr [''$Key'', ''B'', ''C'']
   \<and> upsert omitBuilder (abcEntity [''$Key'', ''A'', ''B'', ''C'']) (Inr (Some abcInsert))
     = Inr (Some \<lparr>Raw = ''INSERT INTO `User` (`$Key`,`A`,`B`,`C`) VALUES (?,?,?,?) ON DUPLICATE KEY UPDATE `$Key`=VALUES(`$Key`),`B`=VALUES(`B`),`C`=VALUES(`C`);'',
                  Args = [VStr ''K1'', VInt 1, VInt 2, VInt 3]\<rparr>)"
proof -
  have t: "Truncate (Raw abcInsert) (int (length (Raw abcInsert)) - 1)
      = Inr ''INSERT INTO `User` (`$Key`,`A`,`B`,`C`) VALUES (?,?,?,?)''"
    by (simp add: abcInsert_def Truncate_def)
  have c: "OnConflictUpdate (dialect omitBuilder) ''User'' [''$Key'', ''B'', ''C'']
      = ''ON DUPLICATE KEY UPDATE `$Key`=VALUES(`$Key`),`B`=VALUES(`B`),`C`=VALUES(`C`)''"
    by (simp add: omitBuilder_def exampleBuilder_def mysql_def mysqlOnConflictUpdate_def
        mysqlQuote_def)
  have q: "omits (query omitBuilder) = [''A'', ''B'']"
    by (simp add: omitBuilder_def emptyScope_def)
  have e: "Columns (abcEntity [''$Key'', ''A'', ''B'', ''C'']) = [''$Key'', ''A'', ''B'', ''C'']"
    "Name (abcEntity [''$Key'', ''A'', ''B'', ''C'']) = ''User''"
    "length (keyFields (abcEntity [''$Key'', ''A'', ''B'', ''C''])) = 1"
    by (simp_all add: abcEntity_def rowsOfKeys_def)
  have "upsert omitBuilder (abcEntity [''$Key'', ''A'', ''B'', ''C'']) (Inr (Some abcInsert))
     = Inr (Some \<lparr>Raw = ''INSERT INTO `User` (`$Key`,`A`,`B`,`C`) VALUES (?,?,?,?) ON DUPLICATE KEY UPDATE `$Key`=VALUES(`$Key`),`B`=VALUES(`B`),`C`=VALUES(`C`);'',
                  Args = [VStr ''K1'', VInt 1, VInt 2, VInt 3]\<rparr>)"
    unfolding upsert_def q e upsertColumns_key_abc
    by (simp add: t c) (simp add: abcInsert_def)
  then show ?thesis using upsertColumns_abc upsertColumns_key_abc by simp
qed

section \<open>Properties of transactions and pagination\<close>

text \<open>
  Claim C2, as the code has it. When the callback returns an error, the transaction is
  rolled back and that error is returned. When the callback panics, the transaction is
  rolled back and the deferred function recovers the panic, so that the call returns
  normally. The transaction is committed only when the callback has returned nil.
\<close>

theorem transaction_outcomes:
  "(cb SqlTx = Return (Some err) \<longrightarrow>
      runInTransaction SqlDB None commitResult cb = (Returned (Some err), Some RolledBack))
   \<and> (cb SqlTx = Panics v \<longrightarrow>
      (\<exists>r. fst (runInTransaction SqlDB None commitResult cb) = Returned r)
      \<and> snd (runInTransaction SqlDB None commitResult cb) = Some RolledBack)
   \<and> (snd (runInTransaction conn beginResult commitResult cb) = Some Committed \<longrightarrow>
      cb SqlTx = Return None)"
proof (intro conjI impI)
  assume "cb SqlTx = Return (Some err)"
  then show "runInTransaction SqlDB None commitResult cb = (Returned (Some err), Some RolledBack)"
    by (simp add: runInTransaction_def Rollback_def)
next
  assume "cb SqlTx = Panics v"
  then show "\<exists>r. fst (runInTransaction SqlDB None commitResult cb) = Returned r"
    by (simp add: runInTransaction_def Rollback_def)
next
  assume "cb SqlTx = Panics v"
  then show "snd (runInTransaction SqlDB None commitResult cb) = Some RolledBack"
    by (simp add: runInTransaction_def Rollback_def)
next
  assume c: "snd (runInTransaction conn beginResult commitResult cb) = Some Committed"
  show "cb SqlTx = Return None"
  proof (cases "cb SqlTx")
    case (Panics v)
    then show ?thesis
      using c by (simp add: runInTransaction_def Rollback_def split: sqlCommon.splits option.splits)
  next
    case (Return r)
    then show ?thesis
      using c
      by (cases r) (simp_all add: runInTransaction_def Rollback_def
          split: sqlCommon.splits option.splits)
  qed
qed

theorem transaction_outcomes_witness:
  "runInTransaction SqlDB None None (\<lambda>db. Return (Some (External ''failed'')))
     = (Returned (Some (External ''failed'')), Some RolledBack)
   \<and> snd (runInTransaction SqlDB None None (\<lambda>db. Panics ''boom'')) = Some RolledBack
   \<and> snd (runInTransaction SqlDB None None (\<lambda>db. Return None)) = Some Committed"
proof -
  have 1: "runInTransaction SqlDB None None (\<lambda>db. Return (Some (External ''failed'')))
     = (Returned (Some (External ''failed'')), Some RolledBack)"
    using transaction_outcomes [of "\<lambda>db. Return (Some (External ''failed''))"
        "External ''failed''" None] by simp
  have 2: "snd (runInTransaction SqlDB None None (\<lambda>db. Panics ''boom'')) = Some RolledBack"
    using transaction_outcomes [of "\<lambda>db. Panics ''boom''" _ None "''boom''"] by simp
  have 3: "snd (runInTransaction SqlDB None None (\<lambda>db. Return None)) = Some Committed"
    by (simp add: runInTransaction_def Rollback_def Commit_def)
  show ?thesis using 1 2 3 by simp
qed

text \<open>
  Claim C2 as the specification words it lets the panic of the callback reach the
  caller. A callback that panics makes \<open>runInTransaction\<close> return nil.
\<close>

theorem panic_is_recovered_counterexample:
  "fst (runInTransaction SqlDB None None (\<lambda>db. Panics ''boom'')) = Returned None
   \<and> fst (runInTransaction SqlDB None None (\<lambda>db. Panics ''boom'')) \<noteq> Panicking ''boom''"
  by (simp add: runInTransaction_def Rollback_def)

text \<open>
  Claim C1 at a failing input. \<open>paginate\<close> returns nil for every cursor: it neither
  decodes the cursor nor compares its signature, and never returns the invalid-cursor
  error.
\<close>

theorem paginate_accepts_every_cursor:
  "paginate b \<lparr>Cursor = ''c2lnbmVkLWZvci1hbm90aGVyLXF1ZXJ5'', Limit = 10\<rparr> model = None
   \<and> paginate b p model \<noteq> Some ErrInvalidCursor"
  by (simp add: paginate_def)

end
